theory Spec2Isabelle
  imports Main "HOL-Library.Word"
begin

section \<open>The network monitor connection of \<^verbatim>\<open>src/netmon.js\<close>\<close>

text \<open>
  \<^verbatim>\<open>NetworkMonitor\<close> is an event-driven object. JavaScript runs every callback to
  completion, so the model is a deterministic step function on one record: the fields of
  the object, and beside them the collaborators the callbacks close over (the sockets
  with their registered listeners, the timers, the suspended \<^verbatim>\<open>reconnect\<close> loop
  and its awaiting callers). One event is one callback together with the promise
  continuations it releases, up to the next \<^verbatim>\<open>await\<close> on a collaborator.
  Logs record what the callbacks do to the outside: callback and handler invocations,
  \<^verbatim>\<open>console.error\<close> lines, exceptions that escape.

  Falsy initial values: \<^verbatim>\<open>pendingConnect\<close> and \<^verbatim>\<open>ws\<close> start
  \<^verbatim>\<open>undefined\<close> and are only ever tested for truthiness or compared with a socket,
  so they start as \<open>False\<close> and \<open>None\<close>. \<^verbatim>\<open>pending\<close> starts
  \<^verbatim>\<open>undefined\<close> and is first read by listeners that \<^verbatim>\<open>_connect\<close> registers
  after assigning it a Map, so it starts as the empty table. No method of the class
  inserts into \<^verbatim>\<open>pending\<close>; what the methods do with its entries is stated for an
  arbitrary table.
\<close>

subsection \<open>Values\<close>

type_synonym byte = "8 word"

text \<open>The value \<^verbatim>\<open>JSON.parse\<close> returns. Numbers are restricted to integers.\<close>

datatype json =
    JNull
  | JBool bool
  | JNum int
  | JStr string
  | JArr "json list"
  | JObj "(string \<times> json) list"

datatype jsval = Undefined | Json json | Buffer "byte list"

text \<open>
  Keys of a \<^verbatim>\<open>Map\<close>: primitives are compared by value; an array, an object or a
  buffer that was just decoded is a new reference and equals no key.
\<close>

datatype key = KUndefined | KNull | KBool bool | KNum int | KStr string

fun key_of :: "jsval \<Rightarrow> key option" where
  "key_of Undefined = Some KUndefined"
| "key_of (Json JNull) = Some KNull"
| "key_of (Json (JBool b)) = Some (KBool b)"
| "key_of (Json (JNum n)) = Some (KNum n)"
| "key_of (Json (JStr x)) = Some (KStr x)"
| "key_of (Json (JArr xs)) = None"
| "key_of (Json (JObj fs)) = None"
| "key_of (Buffer bs) = None"

datatype error =
    ConnectionCancelled \<comment> \<open>\<^verbatim>\<open>new Error('connection cancelled')\<close>\<close>
  | Disconnected string \<comment> \<open>\<^verbatim>\<open>new Error(`disconnected ${reason}`)\<close>\<close>
  | KeepAliveTimeout \<comment> \<open>\<^verbatim>\<open>'Netmon did not get a response to pong in 10 seconds, disconnecting.'\<close>\<close>
  | TypeError \<comment> \<open>a property read on \<^verbatim>\<open>null\<close>\<close>
  | RangeError \<comment> \<open>a buffer read out of bounds\<close>
  | Thrown string \<comment> \<open>an error value of a collaborator: resolver, socket, parser, handler\<close>

text \<open>
  A response callback stored in \<^verbatim>\<open>pending\<close>: its identity, and the exception it
  raises when called, if any.
\<close>

datatype callback = Callback (cb_name: nat) (cb_throws: "error option")

datatype log =
    AgentHandlerError error \<comment> \<open>\<^verbatim>\<open>console.error('error in agent message handler', err)\<close>\<close>
  | NetmonSocketError error \<comment> \<open>\<^verbatim>\<open>console.error('error in netmon socket', err)\<close>\<close>
  | NoPongLog \<comment> \<open>the line the deadline timer prints\<close>

subsection \<open>Collaborators\<close>

text \<open>
  A \<^verbatim>\<open>WebSocket\<close> made by \<^verbatim>\<open>_connect\<close>. Its \<^verbatim>\<open>message\<close> and
  \<^verbatim>\<open>close\<close> listeners are registered when it is made and never removed; the other
  listeners come and go.
\<close>

record socket =
  url :: string
  once_open :: bool
  once_error :: bool
  on_error :: bool
  once_pong :: nat
  close_calls :: nat
  pings :: "nat list"

datatype timer_kind =
    Backoff nat \<comment> \<open>the loop's \<^verbatim>\<open>setTimeout(resolve, 1000)\<close>\<close>
  | Deadline nat \<comment> \<open>the keep-alive timeout closing over a socket\<close>
  | Idle \<comment> \<open>the \<^verbatim>\<open>setTimeout(resolve, 10000)\<close> of the pong listener\<close>

record timer =
  due :: nat
  kind :: timer_kind
  active :: bool

text \<open>Where the loop of \<^verbatim>\<open>reconnect\<close> is suspended.\<close>

datatype pc = AwaitEndpoint | AwaitOpen nat | AwaitBackoff nat

datatype invoke = Throws error | Returns

datatype settle = Fulfilled bool | Rejected error

datatype frame = TextFrame "json option" | BinaryFrame "byte list"

record netmon =
  connected :: bool
  connectPromise :: "nat option"
  handler :: "nat option"
  keepAliveTimeout :: "nat option"
  pendingConnect :: bool
  pending :: "(key \<times> callback) list"
  ws :: "nat option"
  sockets :: "socket list"
  timers :: "timer list"
  now :: nat
  loops :: "(nat \<times> pc) list"
  next_promise :: nat
  awaiting :: "(nat \<times> nat) list"
  returned :: "nat list"
  attempts :: "error option list"
  calls :: "(callback \<times> error) list"
  handler_calls :: "(nat \<times> jsval) list"
  dispatched :: "(jsval \<times> bool) list"
  console :: "log list"
  uncaught :: "error list"
  unhandled :: "error list"

text \<open>The object the constructor returns, in an empty world.\<close>

definition init :: netmon where
  "init = \<lparr>connected = False, connectPromise = None, handler = None,
     keepAliveTimeout = None, pendingConnect = False, pending = [], ws = None,
     sockets = [], timers = [], now = 0, loops = [], next_promise = 0, awaiting = [],
     returned = [], attempts = [], calls = [], handler_calls = [], dispatched = [],
     console = [], uncaught = [], unhandled = []\<rparr>"

definition new_socket :: "string \<Rightarrow> socket" where
  "new_socket u = \<lparr>url = u, once_open = True, once_error = True, on_error = False,
     once_pong = 0, close_calls = 0, pings = []\<rparr>"

definition upd_socket :: "nat \<Rightarrow> (socket \<Rightarrow> socket) \<Rightarrow> netmon \<Rightarrow> netmon" where
  "upd_socket w f s =
     (if w < length (sockets s) then s\<lparr>sockets := (sockets s)[w := f (sockets s ! w)]\<rparr>
      else s)"

text \<open>\<^verbatim>\<open>try { ws.close(); } catch (e) {}\<close>\<close>

definition ws_close :: "nat \<Rightarrow> netmon \<Rightarrow> netmon" where
  "ws_close w s = upd_socket w (\<lambda>k. k\<lparr>close_calls := Suc (close_calls k)\<rparr>) s"

definition setTimeout :: "timer_kind \<Rightarrow> nat \<Rightarrow> netmon \<Rightarrow> netmon" where
  "setTimeout k ms s =
     s\<lparr>timers := timers s @ [\<lparr>due = now s + ms, kind = k, active = True\<rparr>]\<rparr>"

definition clearTimeout :: "nat \<Rightarrow> netmon \<Rightarrow> netmon" where
  "clearTimeout t s =
     (if t < length (timers s) then s\<lparr>timers := (timers s)[t := (timers s ! t)\<lparr>active := False\<rparr>]\<rparr>
      else s)"

subsection \<open>The pending table\<close>

text \<open>
  \<^verbatim>\<open>this.pending.forEach(handler => { handler(err); })\<close>: the callbacks run in
  insertion order; one that throws ends the iteration and the exception leaves the
  enclosing listener.
\<close>

fun forEach_fail :: "error \<Rightarrow> (key \<times> callback) list \<Rightarrow> (callback \<times> error) list \<times> error option" where
  "forEach_fail e [] = ([], None)"
| "forEach_fail e ((k, c) # ps) =
     (case cb_throws c of
        Some x \<Rightarrow> ([(c, e)], Some x)
      | None \<Rightarrow> (case forEach_fail e ps of (cs, r) \<Rightarrow> ((c, e) # cs, r)))"

text \<open>\<^verbatim>\<open>this.pending.delete(id)\<close>\<close>

definition pending_delete :: "jsval \<Rightarrow> (key \<times> callback) list \<Rightarrow> (key \<times> callback) list" where
  "pending_delete i ps =
     (case key_of i of None \<Rightarrow> ps | Some k \<Rightarrow> filter (\<lambda>(k', c). k' \<noteq> k) ps)"

subsection \<open>Disconnecting\<close>

definition stopKeepAlive :: "netmon \<Rightarrow> netmon" where
  "stopKeepAlive s =
     (case keepAliveTimeout s of
        None \<Rightarrow> s
      | Some t \<Rightarrow> (clearTimeout t s)\<lparr>keepAliveTimeout := None\<rparr>)"

text \<open>\<^verbatim>\<open>_disconnect()\<close>\<close>

definition disconnect_priv :: "netmon \<Rightarrow> netmon" where
  "disconnect_priv s =
     (let s1 = stopKeepAlive (s\<lparr>connected := False, handler := None\<rparr>)
      in case ws s1 of
           None \<Rightarrow> s1
         | Some w \<Rightarrow> (ws_close w s1)\<lparr>ws := None\<rparr>)"

text \<open>\<^verbatim>\<open>disconnect()\<close>\<close>

definition disconnect :: "netmon \<Rightarrow> netmon" where
  "disconnect s = disconnect_priv (s\<lparr>pendingConnect := False\<rparr>)"

text \<open>\<^verbatim>\<open>handleMessage(handler)\<close>\<close>

definition handleMessage :: "nat \<Rightarrow> netmon \<Rightarrow> netmon" where
  "handleMessage h s = s\<lparr>handler := Some h\<rparr>"

subsection \<open>The keep-alive\<close>

text \<open>
  \<^verbatim>\<open>_startKeepAlive()\<close>: reading \<^verbatim>\<open>ping\<close> of a \<^verbatim>\<open>null\<close> socket throws;
  \<^verbatim>\<open>ping()\<close> on a socket is taken to succeed and is recorded with its time. The new
  timer overwrites \<^verbatim>\<open>_keepAliveTimeout\<close> without clearing the old one, and one more
  \<^verbatim>\<open>once('pong')\<close> listener is registered on the socket.
\<close>

definition startKeepAlive :: "netmon \<Rightarrow> error + netmon" where
  "startKeepAlive s =
     (if \<not> connected s then Inr s
      else case ws s of
        None \<Rightarrow> Inl TypeError
      | Some w \<Rightarrow>
          (let s1 = upd_socket w (\<lambda>k. k\<lparr>pings := pings k @ [now s]\<rparr>) s;
               s2 = (setTimeout (Deadline w) 10000 s1)\<lparr>keepAliveTimeout := Some (length (timers s1))\<rparr>
           in Inr (upd_socket w (\<lambda>k. k\<lparr>once_pong := Suc (once_pong k)\<rparr>) s2)))"

text \<open>The callback of the deadline timer, closing over the socket \<open>w\<close>.\<close>

definition keepAlive_timeout :: "nat \<Rightarrow> netmon \<Rightarrow> netmon" where
  "keepAlive_timeout w s =
     (if ws s \<noteq> Some w then ws_close w s
      else
        (let s1 = s\<lparr>console := console s @ [NoPongLog]\<rparr>
         in case forEach_fail KeepAliveTimeout (pending s1) of
              (cs, Some x) \<Rightarrow> s1\<lparr>calls := calls s1 @ cs, uncaught := uncaught s1 @ [x]\<rparr>
            | (cs, None) \<Rightarrow> disconnect_priv (s1\<lparr>calls := calls s1 @ cs, pending := []\<rparr>)))"

text \<open>
  The \<^verbatim>\<open>once('pong')\<close> listener closing over \<open>w\<close>, up to its \<^verbatim>\<open>await\<close>
  of the idle timer.
\<close>

definition ws_once_pong :: "nat \<Rightarrow> netmon \<Rightarrow> netmon" where
  "ws_once_pong w s =
     (if Some w \<noteq> ws s then s
      else
        (let s1 = (case keepAliveTimeout s of None \<Rightarrow> s | Some t \<Rightarrow> clearTimeout t s)
         in setTimeout Idle 10000 (s1\<lparr>keepAliveTimeout := None\<rparr>)))"

subsection \<open>The loop of \<^verbatim>\<open>reconnect\<close> and \<^verbatim>\<open>_connect\<close>\<close>

definition put_pc :: "nat \<Rightarrow> pc \<Rightarrow> netmon \<Rightarrow> netmon" where
  "put_pc p c s = s\<lparr>loops := filter (\<lambda>(q, d). q \<noteq> p) (loops s) @ [(p, c)]\<rparr>"

text \<open>
  \<^verbatim>\<open>catch (e) { await new Promise(resolve => setTimeout(resolve, 1000)); }\<close>:
  the rejection of \<^verbatim>\<open>_connect()\<close> is recorded and dropped.
\<close>

definition attempt_failed :: "nat \<Rightarrow> error \<Rightarrow> netmon \<Rightarrow> netmon" where
  "attempt_failed p e s =
     put_pc p (AwaitBackoff (length (timers s)))
       (setTimeout (Backoff p) 1000 (s\<lparr>attempts := attempts s @ [Some e]\<rparr>))"

text \<open>\<^verbatim>\<open>_connect()\<close> up to \<^verbatim>\<open>await this.instance.netmonEndpoint()\<close>.\<close>

definition connect_priv_begin :: "nat \<Rightarrow> netmon \<Rightarrow> netmon" where
  "connect_priv_begin p s = put_pc p AwaitEndpoint (s\<lparr>pending := []\<rparr>)"

text \<open>
  The end of the loop: \<^verbatim>\<open>this.connectPromise = null\<close>, and the loop's promise
  resolves, releasing the calls that await it.
\<close>

definition loop_finish :: "nat \<Rightarrow> netmon \<Rightarrow> netmon" where
  "loop_finish p s =
     s\<lparr>connectPromise := None,
       loops := filter (\<lambda>(q, d). q \<noteq> p) (loops s),
       returned := returned s @ map fst (filter (\<lambda>(c, q). q = p) (awaiting s)),
       awaiting := filter (\<lambda>(c, q). q \<noteq> p) (awaiting s)\<rparr>"

text \<open>\<^verbatim>\<open>while (this.pendingConnect)\<close>\<close>

definition loop_head :: "nat \<Rightarrow> netmon \<Rightarrow> netmon" where
  "loop_head p s = (if pendingConnect s then connect_priv_begin p s else loop_finish p s)"

text \<open>
  \<^verbatim>\<open>_connect()\<close> from the endpoint to the \<^verbatim>\<open>await\<close> of the open promise. The
  third argument is what \<^verbatim>\<open>new WebSocket(endpoint)\<close> throws, if it throws.
\<close>

definition connect_priv_resolved :: "nat \<Rightarrow> string \<Rightarrow> error option \<Rightarrow> netmon \<Rightarrow> netmon" where
  "connect_priv_resolved p u ctor s =
     (if \<not> pendingConnect s then attempt_failed p ConnectionCancelled s
      else case ctor of
        Some e \<Rightarrow> attempt_failed p e s
      | None \<Rightarrow>
          put_pc p (AwaitOpen (length (sockets s)))
            (s\<lparr>sockets := sockets s @ [new_socket u], ws := Some (length (sockets s))\<rparr>))"

text \<open>
  \<^verbatim>\<open>_connect()\<close> after the open promise resolved:
  \<^verbatim>\<open>this.connected = true; this._startKeepAlive();\<close>, then the loop's \<^verbatim>\<open>break\<close>.
\<close>

definition connect_priv_opened :: "nat \<Rightarrow> netmon \<Rightarrow> netmon" where
  "connect_priv_opened p s =
     (case startKeepAlive (s\<lparr>connected := True\<rparr>) of
        Inl e \<Rightarrow> attempt_failed p e (s\<lparr>connected := True\<rparr>)
      | Inr s1 \<Rightarrow> loop_finish p (s1\<lparr>attempts := attempts s1 @ [None]\<rparr>))"

text \<open>The loops whose \<^verbatim>\<open>_connect()\<close> awaits the open promise of the socket \<open>w\<close>.\<close>

definition awaiting_open :: "nat \<Rightarrow> netmon \<Rightarrow> nat list" where
  "awaiting_open w s = map fst (filter (\<lambda>(p, c). c = AwaitOpen w) (loops s))"

text \<open>\<^verbatim>\<open>reject(e)\<close> and \<^verbatim>\<open>resolve()\<close> of the open promise: no effect once it is settled.\<close>

definition reject_open :: "nat \<Rightarrow> error \<Rightarrow> netmon \<Rightarrow> netmon" where
  "reject_open w e s = (case awaiting_open w s of [] \<Rightarrow> s | p # ps \<Rightarrow> attempt_failed p e s)"

definition resolve_open :: "nat \<Rightarrow> netmon \<Rightarrow> netmon" where
  "resolve_open w s = (case awaiting_open w s of [] \<Rightarrow> s | p # ps \<Rightarrow> connect_priv_opened p s)"

text \<open>
  A call \<open>c\<close> is handed the promise \<open>p\<close>: it waits while the loop of \<open>p\<close> runs, and
  returns at once when that loop has ended.
\<close>

definition await_promise :: "nat \<Rightarrow> nat \<Rightarrow> netmon \<Rightarrow> netmon" where
  "await_promise c p s =
     (if p \<in> set (map fst (loops s)) then s\<lparr>awaiting := awaiting s @ [(c, p)]\<rparr>
      else s\<lparr>returned := returned s @ [c]\<rparr>)"

text \<open>
  \<^verbatim>\<open>reconnect()\<close>, called as \<open>c\<close>. The async function of the loop runs to its first
  \<^verbatim>\<open>await\<close> before its promise is assigned to \<^verbatim>\<open>connectPromise\<close>.
\<close>

definition reconnect :: "nat \<Rightarrow> netmon \<Rightarrow> netmon" where
  "reconnect c s =
     (let s1 = (if connected s then disconnect s else s)
      in case connectPromise s1 of
           Some p \<Rightarrow> await_promise c p s1
         | None \<Rightarrow>
             (let p = next_promise s1;
                  s2 = loop_head p (s1\<lparr>next_promise := Suc p\<rparr>)
              in await_promise c p (s2\<lparr>connectPromise := Some p\<rparr>)))"

text \<open>\<^verbatim>\<open>connect()\<close>, called as \<open>c\<close>.\<close>

definition connect :: "nat \<Rightarrow> netmon \<Rightarrow> netmon" where
  "connect c s =
     (let s1 = s\<lparr>pendingConnect := True\<rparr>
      in if \<not> connected s1 then reconnect c s1 else s1\<lparr>returned := returned s1 @ [c]\<rparr>)"

subsection \<open>The listeners of a socket\<close>

text \<open>
  \<^verbatim>\<open>buf.readUInt32LE(offset)\<close> of Node's Buffer; \<open>None\<close> is its range error.
\<close>

definition readUInt32LE :: "byte list \<Rightarrow> nat \<Rightarrow> nat option" where
  "readUInt32LE buf off =
     (if off + 3 < length buf
      then Some (unat (buf ! off) + unat (buf ! (off + 1)) * 2 ^ 8
                 + unat (buf ! (off + 2)) * 2 ^ 16 + unat (buf ! (off + 3)) * 2 ^ 24)
      else None)"

text \<open>
  \<^verbatim>\<open>message['id']\<close> of a parsed value; the fields of an object are those of the
  parsed object, one per name.
\<close>

fun get_id :: "json \<Rightarrow> error + jsval" where
  "get_id JNull = Inl TypeError"
| "get_id (JObj fs) = Inr (case map_of fs ''id'' of None \<Rightarrow> Undefined | Some v \<Rightarrow> Json v)"
| "get_id j = Inr Undefined"

text \<open>
  The decoding at the head of the \<^verbatim>\<open>message\<close> listener: the pair of \<^verbatim>\<open>id\<close> and
  \<^verbatim>\<open>message\<close>. \<open>TextFrame None\<close> is a string that \<^verbatim>\<open>JSON.parse\<close> rejects.
\<close>

definition decode :: "frame \<Rightarrow> error + (jsval \<times> jsval)" where
  "decode d =
     (case d of
        TextFrame None \<Rightarrow> Inl (Thrown ''SyntaxError'')
      | TextFrame (Some j) \<Rightarrow> (case get_id j of Inl e \<Rightarrow> Inl e | Inr i \<Rightarrow> Inr (i, Json j))
      | BinaryFrame bs \<Rightarrow>
          if length bs \<ge> 8
          then (case readUInt32LE bs 0 of
                  None \<Rightarrow> Inl RangeError
                | Some n \<Rightarrow> Inr (Json (JNum (int n)), Buffer (drop 8 bs)))
          else Inr (Undefined, Undefined))"

text \<open>
  The \<^verbatim>\<open>message\<close> listener. The second argument is what the call of the registered
  handler does: it throws, or it returns a value or promise, whose settlement is a later
  event.
\<close>

definition ws_on_message :: "frame \<Rightarrow> invoke \<Rightarrow> netmon \<Rightarrow> netmon" where
  "ws_on_message d iv s =
     (case decode d of
        Inl e \<Rightarrow> s\<lparr>console := console s @ [AgentHandlerError e]\<rparr>
      | Inr (i, m) \<Rightarrow>
          (case handler s of
             None \<Rightarrow> s
           | Some h \<Rightarrow>
               (case iv of
                  Throws e \<Rightarrow>
                    s\<lparr>handler_calls := handler_calls s @ [(h, m)],
                      console := console s @ [AgentHandlerError e]\<rparr>
                | Returns \<Rightarrow>
                    s\<lparr>handler_calls := handler_calls s @ [(h, m)],
                      dispatched := dispatched s @ [(i, False)]\<rparr>)))"

text \<open>
  \<^verbatim>\<open>Promise.resolve(handler(message)).then(shouldDelete => ...)\<close> for the dispatch
  number \<open>d\<close>: the chain has no rejection handler.
\<close>

definition handler_settled :: "nat \<Rightarrow> settle \<Rightarrow> netmon \<Rightarrow> netmon" where
  "handler_settled d r s =
     (if d < length (dispatched s) \<and> \<not> snd (dispatched s ! d)
      then
        (let i = fst (dispatched s ! d);
             s1 = s\<lparr>dispatched := (dispatched s)[d := (i, True)]\<rparr>
         in case r of
              Fulfilled b \<Rightarrow> if b then s1\<lparr>pending := pending_delete i (pending s1)\<rparr> else s1
            | Rejected e \<Rightarrow> s1\<lparr>unhandled := unhandled s1 @ [e]\<rparr>)
      else s)"

text \<open>The \<^verbatim>\<open>close\<close> listener; it does not mention the socket it is registered on.\<close>

definition ws_on_close :: "string \<Rightarrow> netmon \<Rightarrow> netmon" where
  "ws_on_close reason s =
     (case forEach_fail (Disconnected reason) (pending s) of
        (cs, Some x) \<Rightarrow> s\<lparr>calls := calls s @ cs, uncaught := uncaught s @ [x]\<rparr>
      | (cs, None) \<Rightarrow> disconnect_priv (s\<lparr>calls := calls s @ cs, pending := []\<rparr>))"

text \<open>The \<^verbatim>\<open>once('open')\<close> listener closing over \<open>w\<close>.\<close>

definition ws_once_open :: "nat \<Rightarrow> netmon \<Rightarrow> netmon" where
  "ws_once_open w s =
     (if ws s \<noteq> Some w then reject_open w ConnectionCancelled (ws_close w s)
      else resolve_open w (upd_socket w (\<lambda>k. k\<lparr>on_error := True\<rparr>) s))"

text \<open>The \<^verbatim>\<open>once('error')\<close> listener of the open promise, closing over \<open>w\<close>.\<close>

definition ws_once_error :: "nat \<Rightarrow> error \<Rightarrow> netmon \<Rightarrow> netmon" where
  "ws_once_error w e s =
     reject_open w e (if ws s = Some w then disconnect_priv s else ws_close w s)"

text \<open>The \<^verbatim>\<open>on('error')\<close> listener registered at a successful open, closing over \<open>w\<close>.\<close>

definition ws_on_error :: "nat \<Rightarrow> error \<Rightarrow> netmon \<Rightarrow> netmon" where
  "ws_on_error w e s =
     (case forEach_fail e (pending s) of
        (cs, Some x) \<Rightarrow> s\<lparr>calls := calls s @ cs, uncaught := uncaught s @ [x]\<rparr>
      | (cs, None) \<Rightarrow>
          (let s1 = s\<lparr>calls := calls s @ cs, pending := []\<rparr>;
               s2 = (if ws s1 = Some w then disconnect_priv s1 else ws_close w s1)
           in s2\<lparr>console := console s2 @ [NetmonSocketError e]\<rparr>))"

subsection \<open>Events\<close>

text \<open>
  What the caller and the collaborators do to the object. A call of \<^verbatim>\<open>connect\<close> or
  \<^verbatim>\<open>reconnect\<close> carries a number that names it among the awaiting and returned
  calls; an endpoint event names the loop whose resolver call settles. An event for a
  socket that was never made, for a listener that is not registered, or for a timer that
  is cleared or not yet due, does nothing. \<open>Tick\<close> lets time pass, in milliseconds.
  \<^verbatim>\<open>start()\<close>, \<^verbatim>\<open>stop()\<close> and \<^verbatim>\<open>clearLog()\<close> are \<^verbatim>\<open>connect()\<close> and
  \<^verbatim>\<open>disconnect()\<close> around a control request or a send, and are histories of these
  events.
\<close>

datatype event =
    Connect nat
  | Reconnect nat
  | Disconnect
  | HandleMessage nat
  | EndpointResolved nat string "error option"
  | EndpointFailed nat error
  | WsOpen nat
  | WsError nat error
  | WsClose nat string
  | WsMessage nat frame invoke
  | WsPong nat
  | HandlerSettled nat settle
  | TimerFired nat
  | Tick nat

text \<open>
  \<^verbatim>\<open>emit('error', e)\<close>: the listeners run in the order of their registration, the
  one-shot listener of the open promise before the listener registered at the open; with
  no listener the emitter throws the error.
\<close>

definition emit_error :: "nat \<Rightarrow> error \<Rightarrow> netmon \<Rightarrow> netmon" where
  "emit_error w e s =
     (if w < length (sockets s)
      then
        (let k = sockets s ! w
         in if once_error k
            then
              (let s1 = ws_once_error w e (upd_socket w (\<lambda>k. k\<lparr>once_error := False\<rparr>) s)
               in if on_error k then ws_on_error w e s1 else s1)
            else if on_error k then ws_on_error w e s
            else s\<lparr>uncaught := uncaught s @ [e]\<rparr>)
      else s)"

definition emit_open :: "nat \<Rightarrow> netmon \<Rightarrow> netmon" where
  "emit_open w s =
     (if w < length (sockets s) \<and> once_open (sockets s ! w)
      then ws_once_open w (upd_socket w (\<lambda>k. k\<lparr>once_open := False\<rparr>) s)
      else s)"

definition emit_pong :: "nat \<Rightarrow> netmon \<Rightarrow> netmon" where
  "emit_pong w s =
     (if w < length (sockets s)
      then (ws_once_pong w ^^ once_pong (sockets s ! w))
             (upd_socket w (\<lambda>k. k\<lparr>once_pong := 0\<rparr>) s)
      else s)"

text \<open>A timer that is due runs its callback once.\<close>

definition fire :: "nat \<Rightarrow> netmon \<Rightarrow> netmon" where
  "fire t s =
     (if t < length (timers s) \<and> active (timers s ! t) \<and> due (timers s ! t) \<le> now s
      then
        (let s1 = clearTimeout t s
         in case kind (timers s ! t) of
              Backoff p \<Rightarrow> if (p, AwaitBackoff t) \<in> set (loops s1) then loop_head p s1 else s1
            | Deadline w \<Rightarrow> keepAlive_timeout w s1
            | Idle \<Rightarrow>
                (case startKeepAlive s1 of
                   Inl e \<Rightarrow> s1\<lparr>unhandled := unhandled s1 @ [e]\<rparr>
                 | Inr s2 \<Rightarrow> s2))
      else s)"

fun step :: "event \<Rightarrow> netmon \<Rightarrow> netmon" where
  "step (Connect c) s = connect c s"
| "step (Reconnect c) s = reconnect c s"
| "step Disconnect s = disconnect s"
| "step (HandleMessage h) s = handleMessage h s"
| "step (EndpointResolved p u ctor) s =
     (if (p, AwaitEndpoint) \<in> set (loops s) then connect_priv_resolved p u ctor s else s)"
| "step (EndpointFailed p e) s =
     (if (p, AwaitEndpoint) \<in> set (loops s) then attempt_failed p e s else s)"
| "step (WsOpen w) s = emit_open w s"
| "step (WsError w e) s = emit_error w e s"
| "step (WsClose w reason) s = (if w < length (sockets s) then ws_on_close reason s else s)"
| "step (WsMessage w d iv) s = (if w < length (sockets s) then ws_on_message d iv s else s)"
| "step (WsPong w) s = emit_pong w s"
| "step (HandlerSettled d r) s = handler_settled d r s"
| "step (TimerFired t) s = fire t s"
| "step (Tick d) s = s\<lparr>now := now s + d\<rparr>"

text \<open>A history of events, oldest first.\<close>

definition run :: "event list \<Rightarrow> netmon \<Rightarrow> netmon" where
  "run es s = fold step es s"

subsection \<open>The binary framing, in the words of the specification\<close>

text \<open>
  The unsigned integer that a list of bytes spells, least significant byte first. It is
  what the specification calls the little-endian correlation id; \<open>readUInt32LE\<close> is
  compared with it below.
\<close>

fun le_uint :: "byte list \<Rightarrow> nat" where
  "le_uint [] = 0"
| "le_uint (b # bs) = unat b + 256 * le_uint bs"

subsection \<open>Invariants of histories\<close>

text \<open>
  A socket that exists and is not the one \<^verbatim>\<open>this.ws\<close> refers to.
\<close>

definition superseded :: "nat \<Rightarrow> netmon \<Rightarrow> bool" where
  "superseded w s = (w < length (sockets s) \<and> ws s \<noteq> Some w)"

text \<open>
  At most one loop of \<^verbatim>\<open>reconnect\<close> is suspended; while it is,
  \<^verbatim>\<open>connectPromise\<close> holds its promise and the monitor is not connected.
\<close>

definition single_flight :: "netmon \<Rightarrow> bool" where
  "single_flight s =
     (case loops s of
        [] \<Rightarrow> True
      | [(p, c)] \<Rightarrow> connectPromise s = Some p \<and> \<not> connected s
      | _ \<Rightarrow> False)"

section \<open>Properties\<close>

subsection \<open>Message framing\<close>

lemma four_bytes: "4 \<le> length (bs :: byte list) \<Longrightarrow> \<exists>a b c d r. bs = a # b # c # d # r"
  by (auto simp add: eval_nat_numeral Suc_le_length_iff)

lemma readUInt32LE_le_uint:
  assumes "4 \<le> length bs"
  shows "readUInt32LE bs 0 = Some (le_uint (take 4 bs))"
proof -
  from four_bytes [OF assms] obtain a b c d r where "bs = a # b # c # d # r" by blast
  then show ?thesis by (simp add: readUInt32LE_def)
qed

lemma le_uint_bound: "le_uint bs < 256 ^ length bs"
proof (induction bs)
  case Nil
  show ?case by simp
next
  case (Cons b bs)
  have "unat b < 256" using unsigned_less [of b, where ?'a = nat] by simp
  with Cons show ?case by simp
qed

lemma decode_binary:
  "8 \<le> length bs \<Longrightarrow> decode (BinaryFrame bs) = Inr (Json (JNum (int (le_uint (take 4 bs)))), Buffer (drop 8 bs))"
  by (simp add: decode_def readUInt32LE_le_uint)

lemma decode_short: "length bs < 8 \<Longrightarrow> decode (BinaryFrame bs) = Inr (Undefined, Undefined)"
  by (simp add: decode_def)

text \<open>
  C8. A binary message of at least 8 bytes, arriving while a handler is registered, is
  handed to the handler as the bytes from offset 8 on, whatever the call of the handler
  does. The id kept for the dispatch is the little-endian unsigned integer of bytes 0 to
  3, which is below \<open>2 ^ 32\<close>. Two messages that differ only in bytes 4 to 7 leave the
  connection in the same state.
\<close>

theorem binary_frame_dispatch:
  assumes "8 \<le> length bs" and "handler s = Some h" and "w < length (sockets s)"
  shows "handler_calls (step (WsMessage w (BinaryFrame bs) iv) s) = handler_calls s @ [(h, Buffer (drop 8 bs))]
    \<and> dispatched (step (WsMessage w (BinaryFrame bs) Returns) s)
        = dispatched s @ [(Json (JNum (int (le_uint (take 4 bs)))), False)]
    \<and> le_uint (take 4 bs) < 2 ^ 32
    \<and> (\<forall>bs'. 8 \<le> length bs' \<longrightarrow> take 4 bs' = take 4 bs \<longrightarrow> drop 8 bs' = drop 8 bs \<longrightarrow>
          step (WsMessage w (BinaryFrame bs') iv) s = step (WsMessage w (BinaryFrame bs) iv) s)"
proof -
  have "le_uint (take 4 bs) < 256 ^ length (take 4 bs)" by (rule le_uint_bound)
  also have "length (take 4 bs) = 4" using assms(1) by simp
  finally have b: "le_uint (take 4 bs) < 2 ^ 32" by simp
  have c: "handler_calls (step (WsMessage w (BinaryFrame bs) iv) s) = handler_calls s @ [(h, Buffer (drop 8 bs))]"
    using assms by (cases iv) (simp_all add: ws_on_message_def decode_binary)
  have d: "dispatched (step (WsMessage w (BinaryFrame bs) Returns) s)
        = dispatched s @ [(Json (JNum (int (le_uint (take 4 bs)))), False)]"
    using assms by (simp add: ws_on_message_def decode_binary)
  have e: "step (WsMessage w (BinaryFrame bs') iv) s = step (WsMessage w (BinaryFrame bs) iv) s"
    if "8 \<le> length bs'" "take 4 bs' = take 4 bs" "drop 8 bs' = drop 8 bs" for bs'
    using that assms(1) by (simp add: ws_on_message_def decode_binary)
  show ?thesis using b c d e by (intro conjI allI impI) assumption+
qed

lemma pending_delete_undefined:
  "filter (\<lambda>(k, c). k \<noteq> KUndefined) (pending_delete Undefined ps) = filter (\<lambda>(k, c). k \<noteq> KUndefined) ps"
  by (induction ps) (auto simp: pending_delete_def)

text \<open>
  C10. A binary message shorter than 8 bytes is not dropped: the registered handler is
  called with \<^verbatim>\<open>undefined\<close> as the message, the dispatch keeps \<^verbatim>\<open>undefined\<close> as
  the id and nothing is logged. Whatever the handler's result settles to, every entry of
  \<^verbatim>\<open>pending\<close> whose key is not \<^verbatim>\<open>undefined\<close>, so every integer-keyed entry,
  is still there, in the same order.
\<close>

theorem short_binary_frame:
  assumes "length bs < 8" and "handler s = Some h" and "w < length (sockets s)"
  shows "handler_calls (step (WsMessage w (BinaryFrame bs) iv) s) = handler_calls s @ [(h, Undefined)]
    \<and> dispatched (step (WsMessage w (BinaryFrame bs) Returns) s) = dispatched s @ [(Undefined, False)]
    \<and> console (step (WsMessage w (BinaryFrame bs) Returns) s) = console s
    \<and> filter (\<lambda>(k, c). k \<noteq> KUndefined)
         (pending (step (HandlerSettled (length (dispatched s)) r)
                    (step (WsMessage w (BinaryFrame bs) Returns) s)))
       = filter (\<lambda>(k, c). k \<noteq> KUndefined) (pending s)"
proof -
  have c: "handler_calls (step (WsMessage w (BinaryFrame bs) iv) s) = handler_calls s @ [(h, Undefined)]"
    using assms by (cases iv) (simp_all add: ws_on_message_def decode_short)
  have m: "step (WsMessage w (BinaryFrame bs) Returns) s
      = s\<lparr>handler_calls := handler_calls s @ [(h, Undefined)],
          dispatched := dispatched s @ [(Undefined, False)]\<rparr>"
    using assms by (simp add: ws_on_message_def decode_short)
  have p: "filter (\<lambda>(k, c). k \<noteq> KUndefined)
         (pending (step (HandlerSettled (length (dispatched s)) r)
                    (step (WsMessage w (BinaryFrame bs) Returns) s)))
       = filter (\<lambda>(k, c). k \<noteq> KUndefined) (pending s)"
    unfolding m
    by (cases r) (simp_all add: handler_settled_def Let_def pending_delete_undefined)
  from c m p show ?thesis by simp
qed


theorem binary_frame_dispatch_witness:
  "handler_calls (step (WsMessage 0 (BinaryFrame [42, 0, 0, 0, 1, 2, 3, 4, 7, 8, 9]) Returns)
      (init\<lparr>handler := Some 5, sockets := [new_socket ''u'']\<rparr>)) = [(5, Buffer [7, 8, 9])]
   \<and> dispatched (step (WsMessage 0 (BinaryFrame [42, 0, 0, 0, 1, 2, 3, 4, 7, 8, 9]) Returns)
      (init\<lparr>handler := Some 5, sockets := [new_socket ''u'']\<rparr>)) = [(Json (JNum 42), False)]
   \<and> step (WsMessage 0 (BinaryFrame [42, 0, 0, 0, 255, 254, 253, 252, 7, 8, 9]) Returns)
        (init\<lparr>handler := Some 5, sockets := [new_socket ''u'']\<rparr>)
      = step (WsMessage 0 (BinaryFrame [42, 0, 0, 0, 1, 2, 3, 4, 7, 8, 9]) Returns)
        (init\<lparr>handler := Some 5, sockets := [new_socket ''u'']\<rparr>)"
proof -
  let ?bs = "[42, 0, 0, 0, 1, 2, 3, 4, 7, 8, 9] :: byte list"
  let ?s = "init\<lparr>handler := Some 5, sockets := [new_socket ''u'']\<rparr>"
  have h: "8 \<le> length ?bs" "handler ?s = Some 5" "0 < length (sockets ?s)"
    by simp_all
  note t = binary_frame_dispatch [OF h, of Returns]
  have v: "le_uint (take 4 ?bs) = 42" by simp
  have a: "handler_calls (step (WsMessage 0 (BinaryFrame ?bs) Returns) ?s) = [(5, Buffer [7, 8, 9])]"
    using t [THEN conjunct1] by (simp add: init_def)
  have b: "dispatched (step (WsMessage 0 (BinaryFrame ?bs) Returns) ?s) = [(Json (JNum 42), False)]"
    using t [THEN conjunct2, THEN conjunct1] unfolding v by (simp add: init_def)
  have c: "step (WsMessage 0 (BinaryFrame [42, 0, 0, 0, 255, 254, 253, 252, 7, 8, 9]) Returns) ?s
      = step (WsMessage 0 (BinaryFrame ?bs) Returns) ?s"
    by (rule t [THEN conjunct2, THEN conjunct2, THEN conjunct2, THEN spec, THEN mp, THEN mp, THEN mp])
       simp_all
  from a b c show ?thesis by (intro conjI)
qed

theorem short_binary_frame_witness:
  "handler_calls (step (WsMessage 0 (BinaryFrame [42, 0, 0]) Returns)
      (init\<lparr>handler := Some 5, sockets := [new_socket ''u''],
            pending := [(KNum 42, Callback 1 None), (KUndefined, Callback 2 None)]\<rparr>)) = [(5, Undefined)]
   \<and> filter (\<lambda>(k, c). k \<noteq> KUndefined)
      (pending (step (HandlerSettled 0 (Fulfilled True)) (step (WsMessage 0 (BinaryFrame [42, 0, 0]) Returns)
      (init\<lparr>handler := Some 5, sockets := [new_socket ''u''],
            pending := [(KNum 42, Callback 1 None), (KUndefined, Callback 2 None)]\<rparr>))))
      = [(KNum 42, Callback 1 None)]"
proof -
  let ?bs = "[42, 0, 0] :: byte list"
  let ?s = "init\<lparr>handler := Some 5, sockets := [new_socket ''u''],
            pending := [(KNum 42, Callback 1 None), (KUndefined, Callback 2 None)]\<rparr>"
  have h: "length ?bs < 8" "handler ?s = Some 5" "0 < length (sockets ?s)"
    by simp_all
  note t = short_binary_frame [OF h, of Returns "Fulfilled True"]
  have a: "handler_calls (step (WsMessage 0 (BinaryFrame ?bs) Returns) ?s) = [(5, Undefined)]"
    using t [THEN conjunct1] by (simp add: init_def)
  have d: "dispatched ?s = []" by (simp add: init_def)
  have b: "filter (\<lambda>(k, c). k \<noteq> KUndefined)
      (pending (step (HandlerSettled 0 (Fulfilled True)) (step (WsMessage 0 (BinaryFrame ?bs) Returns) ?s)))
      = [(KNum 42, Callback 1 None)]"
    using t [THEN conjunct2, THEN conjunct2, THEN conjunct2] unfolding d by simp
  from a b show ?thesis by (intro conjI)
qed

subsection \<open>Histories and the effect of \<^verbatim>\<open>_disconnect\<close>\<close>

lemmas api_defs = connect_def reconnect_def disconnect_def disconnect_priv_def stopKeepAlive_def
  loop_head_def loop_finish_def connect_priv_begin_def put_pc_def await_promise_def
  connect_priv_resolved_def attempt_failed_def setTimeout_def clearTimeout_def new_socket_def
  emit_open_def ws_once_open_def upd_socket_def resolve_open_def reject_open_def
  awaiting_open_def connect_priv_opened_def startKeepAlive_def ws_close_def handleMessage_def

lemma run_Nil: "run [] s = s"
  by (simp add: run_def)

lemma run_Cons: "run (e # es) s = run es (step e s)"
  by (simp add: run_def)

lemma run_append: "run (es @ fs) s = run fs (run es s)"
  by (simp add: run_def)

lemma run_snoc: "run (es @ [e]) s = step e (run es s)"
  by (simp add: run_def)

lemma connect_from_init:
  "step (Connect 0) init = init\<lparr>pendingConnect := True, connectPromise := Some 0, next_promise := 1,
     loops := [(0, AwaitEndpoint)], awaiting := [(0, 0)]\<rparr>"
  by (simp add: init_def api_defs)

lemma opened_from_init:
  "run [Connect 0, EndpointResolved 0 ''u'' None, WsOpen 0] init =
     init\<lparr>connected := True, keepAliveTimeout := Some 0, pendingConnect := True, ws := Some 0,
       sockets := [\<lparr>url = ''u'', once_open = False, once_error = True, on_error = True,
                    once_pong = 1, close_calls = 0, pings = [0]\<rparr>],
       timers := [\<lparr>due = 10000, kind = Deadline 0, active = True\<rparr>],
       next_promise := 1, returned := [0], attempts := [None]\<rparr>"
  by (simp add: run_Cons run_Nil connect_from_init) (simp add: init_def api_defs)

lemma forEach_fail_ok:
  "list_all (\<lambda>(k, c). cb_throws c = None) ps \<Longrightarrow> forEach_fail e ps = (map (\<lambda>(k, c). (c, e)) ps, None)"
  by (induction ps) auto

lemma disconnect_priv_simps [simp]:
  "connected (disconnect_priv s) = False"
  "handler (disconnect_priv s) = None"
  "ws (disconnect_priv s) = None"
  "keepAliveTimeout (disconnect_priv s) = None"
  "pendingConnect (disconnect_priv s) = pendingConnect s"
  "pending (disconnect_priv s) = pending s"
  "calls (disconnect_priv s) = calls s"
  "loops (disconnect_priv s) = loops s"
  "connectPromise (disconnect_priv s) = connectPromise s"
  "awaiting (disconnect_priv s) = awaiting s"
  "returned (disconnect_priv s) = returned s"
  "attempts (disconnect_priv s) = attempts s"
  "next_promise (disconnect_priv s) = next_promise s"
  "now (disconnect_priv s) = now s"
  "handler_calls (disconnect_priv s) = handler_calls s"
  "dispatched (disconnect_priv s) = dispatched s"
  "console (disconnect_priv s) = console s"
  "uncaught (disconnect_priv s) = uncaught s"
  "unhandled (disconnect_priv s) = unhandled s"
  "length (sockets (disconnect_priv s)) = length (sockets s)"
  "length (timers (disconnect_priv s)) = length (timers s)"
  by (simp_all add: disconnect_priv_def stopKeepAlive_def clearTimeout_def ws_close_def
      upd_socket_def Let_def split: option.splits)

lemma disconnect_priv_timers:
  "timers (disconnect_priv s) =
     (case keepAliveTimeout s of None \<Rightarrow> timers s
      | Some t \<Rightarrow> if t < length (timers s) then (timers s)[t := (timers s ! t)\<lparr>active := False\<rparr>] else timers s)"
  by (simp add: disconnect_priv_def stopKeepAlive_def clearTimeout_def ws_close_def
      upd_socket_def Let_def split: option.splits)

lemma disconnect_priv_sockets:
  "sockets (disconnect_priv s) =
     (case ws s of None \<Rightarrow> sockets s
      | Some w \<Rightarrow> if w < length (sockets s)
          then (sockets s)[w := (sockets s ! w)\<lparr>close_calls := Suc (close_calls (sockets s ! w))\<rparr>]
          else sockets s)"
  by (simp add: disconnect_priv_def stopKeepAlive_def clearTimeout_def ws_close_def
      upd_socket_def Let_def split: option.splits)

lemma disconnect_idem: "disconnect (disconnect s) = disconnect s"
  by (simp add: disconnect_def disconnect_priv_def stopKeepAlive_def clearTimeout_def ws_close_def
      upd_socket_def Let_def split: option.splits)

subsection \<open>\<^verbatim>\<open>disconnect()\<close>\<close>

text \<open>
  C7, as the specification states it, fails on a connected monitor with one outstanding
  request: \<^verbatim>\<open>disconnect()\<close> returns with the entry still in \<^verbatim>\<open>pending\<close> and its
  callback not called.
\<close>

theorem disconnect_keeps_pending_counterexample:
  "connected ((run [Connect 0, EndpointResolved 0 ''u'' None, WsOpen 0] init)
                \<lparr>pending := [(KNum 7, Callback 1 None)]\<rparr>)
   \<and> pending (step Disconnect ((run [Connect 0, EndpointResolved 0 ''u'' None, WsOpen 0] init)
                \<lparr>pending := [(KNum 7, Callback 1 None)]\<rparr>)) = [(KNum 7, Callback 1 None)]
   \<and> calls (step Disconnect ((run [Connect 0, EndpointResolved 0 ''u'' None, WsOpen 0] init)
                \<lparr>pending := [(KNum 7, Callback 1 None)]\<rparr>)) = []"
  unfolding opened_from_init by (simp add: init_def disconnect_def)

text \<open>
  C7, amended. \<^verbatim>\<open>disconnect()\<close> clears \<^verbatim>\<open>pendingConnect\<close>, \<^verbatim>\<open>connected\<close>,
  the handler, the socket reference and the stored deadline timer, which it cancels, and
  calls \<^verbatim>\<open>close()\<close> on the socket it held. It leaves \<^verbatim>\<open>pending\<close> as it is
  and calls no callback; a loop of \<^verbatim>\<open>reconnect\<close> in flight is not removed, it ends
  at its next test of \<^verbatim>\<open>pendingConnect\<close>, and its attempt fails as cancelled at the
  endpoint or at the open. The callbacks are called, once each and with the disconnection
  error, when the \<^verbatim>\<open>close\<close> event of the socket arrives (none of them throwing). A
  second \<^verbatim>\<open>disconnect()\<close> changes nothing.
\<close>

theorem disconnect_effect:
  "\<not> pendingConnect (disconnect s) \<and> \<not> connected (disconnect s) \<and> handler (disconnect s) = None
   \<and> ws (disconnect s) = None \<and> keepAliveTimeout (disconnect s) = None
   \<and> (\<forall>t. keepAliveTimeout s = Some t \<longrightarrow> t < length (timers s) \<longrightarrow>
         timers (disconnect s) = (timers s)[t := (timers s ! t)\<lparr>active := False\<rparr>])
   \<and> (\<forall>w. ws s = Some w \<longrightarrow> w < length (sockets s) \<longrightarrow>
         sockets (disconnect s)
           = (sockets s)[w := (sockets s ! w)\<lparr>close_calls := Suc (close_calls (sockets s ! w))\<rparr>])
   \<and> pending (disconnect s) = pending s \<and> calls (disconnect s) = calls s
   \<and> loops (disconnect s) = loops s
   \<and> (\<forall>p. loop_head p (disconnect s) = loop_finish p (disconnect s))
   \<and> (\<forall>p u ctor. connect_priv_resolved p u ctor (disconnect s)
         = attempt_failed p ConnectionCancelled (disconnect s))
   \<and> (\<forall>w. ws_once_open w (disconnect s) = reject_open w ConnectionCancelled (ws_close w (disconnect s)))
   \<and> (\<forall>w r. w < length (sockets s) \<longrightarrow> list_all (\<lambda>(k, c). cb_throws c = None) (pending s) \<longrightarrow>
         calls (step (WsClose w r) (disconnect s)) = calls s @ map (\<lambda>(k, c). (c, Disconnected r)) (pending s)
         \<and> pending (step (WsClose w r) (disconnect s)) = [])
   \<and> disconnect (disconnect s) = disconnect s"
proof -
  have a: "\<not> pendingConnect (disconnect s) \<and> \<not> connected (disconnect s) \<and> handler (disconnect s) = None
   \<and> ws (disconnect s) = None \<and> keepAliveTimeout (disconnect s) = None
   \<and> pending (disconnect s) = pending s \<and> calls (disconnect s) = calls s
   \<and> loops (disconnect s) = loops s"
    by (simp add: disconnect_def)
  have t: "timers (disconnect s) = (timers s)[t := (timers s ! t)\<lparr>active := False\<rparr>]"
    if "keepAliveTimeout s = Some t" "t < length (timers s)" for t
    using that by (simp add: disconnect_def disconnect_priv_timers)
  have k: "sockets (disconnect s)
           = (sockets s)[w := (sockets s ! w)\<lparr>close_calls := Suc (close_calls (sockets s ! w))\<rparr>]"
    if "ws s = Some w" "w < length (sockets s)" for w
    using that by (simp add: disconnect_def disconnect_priv_sockets)
  have l: "loop_head p (disconnect s) = loop_finish p (disconnect s)" for p
    using a by (simp add: loop_head_def)
  have r: "connect_priv_resolved p u ctor (disconnect s)
         = attempt_failed p ConnectionCancelled (disconnect s)" for p u ctor
    using a by (simp add: connect_priv_resolved_def)
  have ob: "ws_once_open w (disconnect s) = reject_open w ConnectionCancelled (ws_close w (disconnect s))" for w
    using a by (simp add: ws_once_open_def)
  have c: "calls (step (WsClose w r) (disconnect s)) = calls s @ map (\<lambda>(k, c). (c, Disconnected r)) (pending s)
         \<and> pending (step (WsClose w r) (disconnect s)) = []"
    if "w < length (sockets s)" "list_all (\<lambda>(k, c). cb_throws c = None) (pending s)" for w r
    using that a by (simp add: disconnect_def ws_on_close_def forEach_fail_ok)
  show ?thesis
    using a t k l r ob c disconnect_idem [of s] by (intro conjI allI impI) simp_all
qed

theorem disconnect_effect_witness:
  "\<not> connected (disconnect ((run [Connect 0, EndpointResolved 0 ''u'' None, WsOpen 0] init)
                \<lparr>pending := [(KNum 7, Callback 1 None)]\<rparr>))
   \<and> timers (disconnect ((run [Connect 0, EndpointResolved 0 ''u'' None, WsOpen 0] init)
                \<lparr>pending := [(KNum 7, Callback 1 None)]\<rparr>))
       = [\<lparr>due = 10000, kind = Deadline 0, active = False\<rparr>]
   \<and> map close_calls (sockets (disconnect ((run [Connect 0, EndpointResolved 0 ''u'' None, WsOpen 0] init)
                \<lparr>pending := [(KNum 7, Callback 1 None)]\<rparr>))) = [1]
   \<and> calls (step (WsClose 0 ''bye'')
         (disconnect ((run [Connect 0, EndpointResolved 0 ''u'' None, WsOpen 0] init)
                \<lparr>pending := [(KNum 7, Callback 1 None)]\<rparr>)))
       = [(Callback 1 None, Disconnected ''bye'')]"
proof -
  let ?s = "(run [Connect 0, EndpointResolved 0 ''u'' None, WsOpen 0] init)
                \<lparr>pending := [(KNum 7, Callback 1 None)]\<rparr>"
  note t = disconnect_effect [of ?s]
  have f: "keepAliveTimeout ?s = Some 0" "0 < length (timers ?s)" "ws ?s = Some 0"
    "0 < length (sockets ?s)" "list_all (\<lambda>(k, c). cb_throws c = None) (pending ?s)"
    "calls ?s = []" "pending ?s = [(KNum 7, Callback 1 None)]"
    "timers ?s = [\<lparr>due = 10000, kind = Deadline 0, active = True\<rparr>]"
    "map close_calls (sockets ?s) = [0]"
    unfolding opened_from_init by (simp_all add: init_def)
  have a: "\<not> connected (disconnect ?s)" using t by blast
  have b: "timers (disconnect ?s) = [\<lparr>due = 10000, kind = Deadline 0, active = False\<rparr>]"
    using t f(1,2,8) by simp
  from t f(3,4) have "sockets (disconnect ?s)
       = (sockets ?s)[0 := (sockets ?s ! 0)\<lparr>close_calls := Suc (close_calls (sockets ?s ! 0))\<rparr>]"
    by blast
  then have c: "map close_calls (sockets (disconnect ?s)) = [1]"
    unfolding opened_from_init by (simp add: init_def)
  from t f(4,5) have "calls (step (WsClose 0 ''bye'') (disconnect ?s))
      = calls ?s @ map (\<lambda>(k, c). (c, Disconnected ''bye'')) (pending ?s)"
    by blast
  then have d: "calls (step (WsClose 0 ''bye'') (disconnect ?s)) = [(Callback 1 None, Disconnected ''bye'')]"
    unfolding f(6,7) by simp
  from a b c d show ?thesis by (intro conjI)
qed

subsection \<open>The registered handler\<close>

text \<open>
  C9 at an asynchronous handler whose promise rejects: the handler was called with the
  payload, nothing is printed by the listener's \<^verbatim>\<open>catch\<close>, and the rejection leaves
  the promise chain unhandled. The same error thrown by the call itself is caught and
  printed.
\<close>

theorem async_handler_rejection_escapes:
  "handler_calls (run [Connect 0, EndpointResolved 0 ''u'' None, WsOpen 0, HandleMessage 5,
       WsMessage 0 (BinaryFrame [42, 0, 0, 0, 0, 0, 0, 0, 1]) Returns,
       HandlerSettled 0 (Rejected (Thrown ''boom''))] init) = [(5, Buffer [1])]
   \<and> console (run [Connect 0, EndpointResolved 0 ''u'' None, WsOpen 0, HandleMessage 5,
       WsMessage 0 (BinaryFrame [42, 0, 0, 0, 0, 0, 0, 0, 1]) Returns,
       HandlerSettled 0 (Rejected (Thrown ''boom''))] init) = []
   \<and> unhandled (run [Connect 0, EndpointResolved 0 ''u'' None, WsOpen 0, HandleMessage 5,
       WsMessage 0 (BinaryFrame [42, 0, 0, 0, 0, 0, 0, 0, 1]) Returns,
       HandlerSettled 0 (Rejected (Thrown ''boom''))] init) = [Thrown ''boom'']
   \<and> console (run [Connect 0, EndpointResolved 0 ''u'' None, WsOpen 0, HandleMessage 5,
       WsMessage 0 (BinaryFrame [42, 0, 0, 0, 0, 0, 0, 0, 1]) (Throws (Thrown ''boom''))] init)
     = [AgentHandlerError (Thrown ''boom'')]"
proof -
  have s: "run ([Connect 0, EndpointResolved 0 ''u'' None, WsOpen 0] @ es) init
      = run es (run [Connect 0, EndpointResolved 0 ''u'' None, WsOpen 0] init)" for es
    by (rule run_append)
  show ?thesis
    using s [of "[HandleMessage 5, WsMessage 0 (BinaryFrame [42, 0, 0, 0, 0, 0, 0, 0, 1]) Returns,
       HandlerSettled 0 (Rejected (Thrown ''boom''))]"]
      s [of "[HandleMessage 5, WsMessage 0 (BinaryFrame [42, 0, 0, 0, 0, 0, 0, 0, 1]) (Throws (Thrown ''boom''))]"]
    unfolding opened_from_init
    by (simp add: run_Cons run_Nil init_def handleMessage_def ws_on_message_def decode_binary
        handler_settled_def)
qed

subsection \<open>The keep-alive\<close>

lemma open_starts_keepalive:
  assumes "w < length (sockets s)" "once_open (sockets s ! w)" "ws s = Some w"
    "awaiting_open w s \<noteq> []"
  shows "connected (step (WsOpen w) s)
    \<and> pings (sockets (step (WsOpen w) s) ! w) = pings (sockets s ! w) @ [now s]
    \<and> timers (step (WsOpen w) s) = timers s @ [\<lparr>due = now s + 10000, kind = Deadline w, active = True\<rparr>]
    \<and> keepAliveTimeout (step (WsOpen w) s) = Some (length (timers s))
    \<and> once_pong (sockets (step (WsOpen w) s) ! w) = Suc (once_pong (sockets s ! w))
    \<and> attempts (step (WsOpen w) s) = attempts s @ [None]"
proof -
  from assms(4) obtain p ps where "awaiting_open w s = p # ps"
    by (cases "awaiting_open w s") auto
  with assms(1-3) show ?thesis
    by (simp add: api_defs Let_def)
qed

lemma pong_restarts_idle:
  assumes "w < length (sockets s)" "ws s = Some w" "once_pong (sockets s ! w) = 1"
    "keepAliveTimeout s = Some t" "t < length (timers s)"
  shows "timers (step (WsPong w) s)
      = (timers s)[t := (timers s ! t)\<lparr>active := False\<rparr>] @ [\<lparr>due = now s + 10000, kind = Idle, active = True\<rparr>]
    \<and> keepAliveTimeout (step (WsPong w) s) = None
    \<and> map pings (sockets (step (WsPong w) s)) = map pings (sockets s)
    \<and> step (TimerFired t) (step (WsPong w) s) = step (WsPong w) s"
  using assms
  by (simp add: emit_pong_def ws_once_pong_def upd_socket_def clearTimeout_def setTimeout_def
      fire_def Let_def nth_append map_update list_update_same_conv)

lemma stale_pong_ignored:
  assumes "ws s \<noteq> Some w"
  shows "step (WsPong w) s = upd_socket w (\<lambda>k. k\<lparr>once_pong := 0\<rparr>) s"
proof -
  have "ws_once_pong w x = x" if "ws x = ws s" for x
    using that assms by (auto simp: ws_once_pong_def)
  then have "(ws_once_pong w ^^ n) x = x" if "ws x = ws s" for x n
    using that by (induction n) auto
  then show ?thesis
    by (simp add: emit_pong_def upd_socket_def)
qed

lemma timer_not_before_due:
  "now s < due (timers s ! t) \<Longrightarrow> step (TimerFired t) s = s"
  by (simp add: fire_def)

lemma idle_timer_probes:
  assumes "t < length (timers s)" "active (timers s ! t)" "due (timers s ! t) \<le> now s"
    "kind (timers s ! t) = Idle" "connected s" "ws s = Some w" "w < length (sockets s)"
  shows "pings (sockets (step (TimerFired t) s) ! w) = pings (sockets s ! w) @ [now s]"
  using assms
  by (simp add: fire_def startKeepAlive_def clearTimeout_def upd_socket_def setTimeout_def Let_def)

lemma deadline_fails_pending:
  assumes "t < length (timers s)" "active (timers s ! t)" "due (timers s ! t) \<le> now s"
    "kind (timers s ! t) = Deadline w" "ws s = Some w"
    "list_all (\<lambda>(k, c). cb_throws c = None) (pending s)"
  shows "calls (step (TimerFired t) s) = calls s @ map (\<lambda>(k, c). (c, KeepAliveTimeout)) (pending s)
    \<and> pending (step (TimerFired t) s) = []
    \<and> \<not> connected (step (TimerFired t) s) \<and> ws (step (TimerFired t) s) = None
    \<and> handler (step (TimerFired t) s) = None
    \<and> (w < length (sockets s) \<longrightarrow>
         close_calls (sockets (step (TimerFired t) s) ! w) = Suc (close_calls (sockets s ! w)))
    \<and> loops (step (TimerFired t) s) = loops s
    \<and> connectPromise (step (TimerFired t) s) = connectPromise s
    \<and> pendingConnect (step (TimerFired t) s) = pendingConnect s
    \<and> attempts (step (TimerFired t) s) = attempts s"
  using assms
  by (simp add: fire_def keepAlive_timeout_def clearTimeout_def forEach_fail_ok Let_def
      disconnect_priv_sockets)


lemma stale_deadline_only_closes:
  assumes "t < length (timers s)" "active (timers s ! t)" "due (timers s ! t) \<le> now s"
    "kind (timers s ! t) = Deadline w" "ws s \<noteq> Some w"
  shows "step (TimerFired t) s = ws_close w (clearTimeout t s)"
  using assms by (simp add: fire_def keepAlive_timeout_def clearTimeout_def Let_def)

lemma opening_from_init:
  "run [Connect 0, EndpointResolved 0 ''u'' None] init =
     init\<lparr>pendingConnect := True, connectPromise := Some 0, ws := Some 0,
       sockets := [\<lparr>url = ''u'', once_open = True, once_error = True, on_error = False,
                    once_pong = 0, close_calls = 0, pings = []\<rparr>],
       loops := [(0, AwaitOpen 0)], next_promise := 1, awaiting := [(0, 0)]\<rparr>"
  by (simp add: run_Cons run_Nil connect_from_init) (simp add: init_def api_defs)

lemma timed_out_from_init:
  "run [Connect 0, EndpointResolved 0 ''u'' None, WsOpen 0, Tick 10000, TimerFired 0] init =
     init\<lparr>pendingConnect := True,
       sockets := [\<lparr>url = ''u'', once_open = False, once_error = True, on_error = True,
                    once_pong = 1, close_calls = 1, pings = [0]\<rparr>],
       timers := [\<lparr>due = 10000, kind = Deadline 0, active = False\<rparr>],
       now := 10000, next_promise := 1, returned := [0], attempts := [None],
       console := [NoPongLog]\<rparr>"
proof -
  have "run [Connect 0, EndpointResolved 0 ''u'' None, WsOpen 0, Tick 10000, TimerFired 0] init
      = run [Tick 10000, TimerFired 0] (run [Connect 0, EndpointResolved 0 ''u'' None, WsOpen 0] init)"
    using run_append [of "[Connect 0, EndpointResolved 0 ''u'' None, WsOpen 0]" "[Tick 10000, TimerFired 0]" init]
    by simp
  then show ?thesis
    unfolding opened_from_init
    by (simp add: run_Cons run_Nil init_def fire_def keepAlive_timeout_def clearTimeout_def
        disconnect_priv_def stopKeepAlive_def ws_close_def upd_socket_def Let_def)
qed

text \<open>
  C6, as the specification states it, fails in its last part. After a connection whose
  first probe is never answered, the deadline timer has torn the connection down while
  \<^verbatim>\<open>pendingConnect\<close> is still true, and nothing reconnects: no loop runs, no
  attempt was made beyond the first, no timer is armed and no second socket exists.
\<close>

theorem no_reconnect_after_timeout_counterexample:
  "pendingConnect (run [Connect 0, EndpointResolved 0 ''u'' None, WsOpen 0, Tick 10000, TimerFired 0] init)
   \<and> \<not> connected (run [Connect 0, EndpointResolved 0 ''u'' None, WsOpen 0, Tick 10000, TimerFired 0] init)
   \<and> loops (run [Connect 0, EndpointResolved 0 ''u'' None, WsOpen 0, Tick 10000, TimerFired 0] init) = []
   \<and> connectPromise (run [Connect 0, EndpointResolved 0 ''u'' None, WsOpen 0, Tick 10000, TimerFired 0] init) = None
   \<and> attempts (run [Connect 0, EndpointResolved 0 ''u'' None, WsOpen 0, Tick 10000, TimerFired 0] init) = [None]
   \<and> filter active (timers (run [Connect 0, EndpointResolved 0 ''u'' None, WsOpen 0, Tick 10000, TimerFired 0] init)) = []
   \<and> length (sockets (run [Connect 0, EndpointResolved 0 ''u'' None, WsOpen 0, Tick 10000, TimerFired 0] init)) = 1"
  unfolding timed_out_from_init by (simp add: init_def)

text \<open>
  C6, amended. A successful open sends a probe at once on the opened socket and arms a
  deadline timer of 10000 ms, stored in \<^verbatim>\<open>_keepAliveTimeout\<close>. A pong of the current
  socket with one listener waiting cancels the stored timer, which then never runs, sends
  no probe and starts an idle timer of 10000 ms; no timer runs before it is due, and the
  idle timer, when it runs on a connected monitor, sends the next probe. A pong of a
  socket that is not the current one changes nothing but the listener count. When the
  deadline timer of the current socket runs, every callback in \<^verbatim>\<open>pending\<close> is called
  once with the timeout error (none of them throwing), \<^verbatim>\<open>pending\<close> is emptied and the
  connection is force-closed; the loops, \<^verbatim>\<open>connectPromise\<close>, \<^verbatim>\<open>pendingConnect\<close>
  and the attempts stay as they were, so no reconnection starts. The deadline timer of a
  socket that is no longer current only closes that socket.
\<close>

theorem keepalive_behaviour:
  "(w < length (sockets s) \<and> once_open (sockets s ! w) \<and> ws s = Some w \<and> awaiting_open w s \<noteq> [] \<longrightarrow>
      connected (step (WsOpen w) s)
      \<and> pings (sockets (step (WsOpen w) s) ! w) = pings (sockets s ! w) @ [now s]
      \<and> timers (step (WsOpen w) s) = timers s @ [\<lparr>due = now s + 10000, kind = Deadline w, active = True\<rparr>]
      \<and> keepAliveTimeout (step (WsOpen w) s) = Some (length (timers s)))
   \<and> (w < length (sockets s) \<and> ws s = Some w \<and> once_pong (sockets s ! w) = 1
        \<and> keepAliveTimeout s = Some t \<and> t < length (timers s) \<longrightarrow>
      timers (step (WsPong w) s)
        = (timers s)[t := (timers s ! t)\<lparr>active := False\<rparr>] @ [\<lparr>due = now s + 10000, kind = Idle, active = True\<rparr>]
      \<and> keepAliveTimeout (step (WsPong w) s) = None
      \<and> map pings (sockets (step (WsPong w) s)) = map pings (sockets s)
      \<and> step (TimerFired t) (step (WsPong w) s) = step (WsPong w) s)
   \<and> (ws s \<noteq> Some w \<longrightarrow> step (WsPong w) s = upd_socket w (\<lambda>k. k\<lparr>once_pong := 0\<rparr>) s)
   \<and> (now s < due (timers s ! t) \<longrightarrow> step (TimerFired t) s = s)
   \<and> (t < length (timers s) \<and> active (timers s ! t) \<and> due (timers s ! t) \<le> now s
        \<and> kind (timers s ! t) = Idle \<and> connected s \<and> ws s = Some w \<and> w < length (sockets s) \<longrightarrow>
      pings (sockets (step (TimerFired t) s) ! w) = pings (sockets s ! w) @ [now s])
   \<and> (t < length (timers s) \<and> active (timers s ! t) \<and> due (timers s ! t) \<le> now s
        \<and> kind (timers s ! t) = Deadline w \<and> ws s = Some w
        \<and> list_all (\<lambda>(k, c). cb_throws c = None) (pending s) \<longrightarrow>
      calls (step (TimerFired t) s) = calls s @ map (\<lambda>(k, c). (c, KeepAliveTimeout)) (pending s)
      \<and> pending (step (TimerFired t) s) = []
      \<and> \<not> connected (step (TimerFired t) s) \<and> ws (step (TimerFired t) s) = None
      \<and> handler (step (TimerFired t) s) = None
      \<and> (w < length (sockets s) \<longrightarrow>
           close_calls (sockets (step (TimerFired t) s) ! w) = Suc (close_calls (sockets s ! w)))
      \<and> loops (step (TimerFired t) s) = loops s
      \<and> connectPromise (step (TimerFired t) s) = connectPromise s
      \<and> pendingConnect (step (TimerFired t) s) = pendingConnect s
      \<and> attempts (step (TimerFired t) s) = attempts s)
   \<and> (t < length (timers s) \<and> active (timers s ! t) \<and> due (timers s ! t) \<le> now s
        \<and> kind (timers s ! t) = Deadline w \<and> ws s \<noteq> Some w \<longrightarrow>
      step (TimerFired t) s = ws_close w (clearTimeout t s))"
proof (intro conjI impI)
  assume "w < length (sockets s) \<and> once_open (sockets s ! w) \<and> ws s = Some w \<and> awaiting_open w s \<noteq> []"
  then have h: "w < length (sockets s)" "once_open (sockets s ! w)" "ws s = Some w" "awaiting_open w s \<noteq> []"
    by simp_all
  note r = open_starts_keepalive [OF h]
  from r show "connected (step (WsOpen w) s)" by simp
  from r show "pings (sockets (step (WsOpen w) s) ! w) = pings (sockets s ! w) @ [now s]" by simp
  from r show "timers (step (WsOpen w) s)
      = timers s @ [\<lparr>due = now s + 10000, kind = Deadline w, active = True\<rparr>]" by simp
  from r show "keepAliveTimeout (step (WsOpen w) s) = Some (length (timers s))" by simp
next
  assume "w < length (sockets s) \<and> ws s = Some w \<and> once_pong (sockets s ! w) = 1
        \<and> keepAliveTimeout s = Some t \<and> t < length (timers s)"
  then have h: "w < length (sockets s)" "ws s = Some w" "once_pong (sockets s ! w) = 1"
    "keepAliveTimeout s = Some t" "t < length (timers s)"
    by simp_all
  note r = pong_restarts_idle [OF h]
  from r show "timers (step (WsPong w) s)
        = (timers s)[t := (timers s ! t)\<lparr>active := False\<rparr>] @ [\<lparr>due = now s + 10000, kind = Idle, active = True\<rparr>]"
    by simp
  from r show "keepAliveTimeout (step (WsPong w) s) = None" by simp
  from r show "map pings (sockets (step (WsPong w) s)) = map pings (sockets s)" by simp
  from r show "step (TimerFired t) (step (WsPong w) s) = step (WsPong w) s" by simp
next
  assume "ws s \<noteq> Some w"
  then show "step (WsPong w) s = upd_socket w (\<lambda>k. k\<lparr>once_pong := 0\<rparr>) s"
    by (rule stale_pong_ignored)
next
  assume "now s < due (timers s ! t)"
  then show "step (TimerFired t) s = s" by (rule timer_not_before_due)
next
  assume "t < length (timers s) \<and> active (timers s ! t) \<and> due (timers s ! t) \<le> now s
        \<and> kind (timers s ! t) = Idle \<and> connected s \<and> ws s = Some w \<and> w < length (sockets s)"
  then show "pings (sockets (step (TimerFired t) s) ! w) = pings (sockets s ! w) @ [now s]"
    by (intro idle_timer_probes) simp_all
next
  assume "t < length (timers s) \<and> active (timers s ! t) \<and> due (timers s ! t) \<le> now s
        \<and> kind (timers s ! t) = Deadline w \<and> ws s \<noteq> Some w"
  then show "step (TimerFired t) s = ws_close w (clearTimeout t s)"
    by (intro stale_deadline_only_closes) simp_all
next
  assume a: "t < length (timers s) \<and> active (timers s ! t) \<and> due (timers s ! t) \<le> now s
        \<and> kind (timers s ! t) = Deadline w \<and> ws s = Some w
        \<and> list_all (\<lambda>(k, c). cb_throws c = None) (pending s)"
  then have h: "t < length (timers s)" "active (timers s ! t)" "due (timers s ! t) \<le> now s"
    "kind (timers s ! t) = Deadline w" "ws s = Some w"
    "list_all (\<lambda>(k, c). cb_throws c = None) (pending s)"
    by simp_all
  note r = deadline_fails_pending [OF h]
  from r show "calls (step (TimerFired t) s) = calls s @ map (\<lambda>(k, c). (c, KeepAliveTimeout)) (pending s)"
    by simp
  from r show "pending (step (TimerFired t) s) = []" by simp
  from r show "\<not> connected (step (TimerFired t) s)" by simp
  from r show "ws (step (TimerFired t) s) = None" by simp
  from r show "handler (step (TimerFired t) s) = None" by simp
  from r show "loops (step (TimerFired t) s) = loops s" by simp
  from r show "connectPromise (step (TimerFired t) s) = connectPromise s" by simp
  from r show "pendingConnect (step (TimerFired t) s) = pendingConnect s" by simp
  from r show "attempts (step (TimerFired t) s) = attempts s" by simp
  assume "w < length (sockets s)"
  with r show "close_calls (sockets (step (TimerFired t) s) ! w) = Suc (close_calls (sockets s ! w))"
    by simp
qed

theorem keepalive_behaviour_witness:
  "timers (step (WsOpen 0) (run [Connect 0, EndpointResolved 0 ''u'' None] init))
     = [\<lparr>due = 10000, kind = Deadline 0, active = True\<rparr>]
   \<and> timers (step (WsPong 0) (run [Connect 0, EndpointResolved 0 ''u'' None, WsOpen 0] init))
     = [\<lparr>due = 10000, kind = Deadline 0, active = False\<rparr>, \<lparr>due = 10000, kind = Idle, active = True\<rparr>]
   \<and> step (WsPong 1) (run [Connect 0, EndpointResolved 0 ''u'' None, WsOpen 0] init)
     = run [Connect 0, EndpointResolved 0 ''u'' None, WsOpen 0] init
   \<and> step (TimerFired 0) (run [Connect 0, EndpointResolved 0 ''u'' None, WsOpen 0] init)
     = run [Connect 0, EndpointResolved 0 ''u'' None, WsOpen 0] init
   \<and> calls (step (TimerFired 0) ((run [Connect 0, EndpointResolved 0 ''u'' None, WsOpen 0] init)
        \<lparr>now := 10000, pending := [(KNum 7, Callback 1 None)]\<rparr>))
     = [(Callback 1 None, KeepAliveTimeout)]
   \<and> loops (step (TimerFired 0) ((run [Connect 0, EndpointResolved 0 ''u'' None, WsOpen 0] init)
        \<lparr>now := 10000, pending := [(KNum 7, Callback 1 None)]\<rparr>)) = []"
proof -
  let ?a = "run [Connect 0, EndpointResolved 0 ''u'' None] init"
  let ?b = "run [Connect 0, EndpointResolved 0 ''u'' None, WsOpen 0] init"
  let ?c = "?b\<lparr>now := 10000, pending := [(KNum 7, Callback 1 None)]\<rparr>"
  have ha: "0 < length (sockets ?a) \<and> once_open (sockets ?a ! 0) \<and> ws ?a = Some 0 \<and> awaiting_open 0 ?a \<noteq> []"
    and ta: "timers ?a = []" "now ?a = 0"
    unfolding opening_from_init by (simp_all add: init_def awaiting_open_def)
  have hb: "0 < length (sockets ?b) \<and> ws ?b = Some 0 \<and> once_pong (sockets ?b ! 0) = 1
        \<and> keepAliveTimeout ?b = Some 0 \<and> 0 < length (timers ?b)"
    and tb: "timers ?b = [\<lparr>due = 10000, kind = Deadline 0, active = True\<rparr>]" "now ?b = 0"
    and wb: "ws ?b \<noteq> Some 1" "now ?b < due (timers ?b ! 0)"
    and ub: "upd_socket 1 (\<lambda>k. k\<lparr>once_pong := 0\<rparr>) ?b = ?b"
    unfolding opened_from_init by (simp_all add: init_def upd_socket_def)
  have hc: "0 < length (timers ?c) \<and> active (timers ?c ! 0) \<and> due (timers ?c ! 0) \<le> now ?c
        \<and> kind (timers ?c ! 0) = Deadline 0 \<and> ws ?c = Some 0
        \<and> list_all (\<lambda>(k, c). cb_throws c = None) (pending ?c)"
    and tc: "calls ?c = []" "pending ?c = [(KNum 7, Callback 1 None)]" "loops ?c = []"
    unfolding opened_from_init by (simp_all add: init_def)
  have 1: "timers (step (WsOpen 0) ?a) = [\<lparr>due = 10000, kind = Deadline 0, active = True\<rparr>]"
    using keepalive_behaviour [of 0 ?a 0] ha unfolding ta by simp
  have 2: "timers (step (WsPong 0) ?b)
     = [\<lparr>due = 10000, kind = Deadline 0, active = False\<rparr>, \<lparr>due = 10000, kind = Idle, active = True\<rparr>]"
    using keepalive_behaviour [of 0 ?b 0] hb unfolding tb by simp
  have 3: "step (WsPong 1) ?b = ?b"
    using keepalive_behaviour [of 1 ?b 0] wb(1) unfolding ub by blast
  have 4: "step (TimerFired 0) ?b = ?b"
    using keepalive_behaviour [of 0 ?b 0] wb(2) by blast
  have 5: "calls (step (TimerFired 0) ?c) = [(Callback 1 None, KeepAliveTimeout)]"
    and 6: "loops (step (TimerFired 0) ?c) = []"
    using keepalive_behaviour [of 0 ?c 0] hc unfolding tc by simp_all
  from 1 2 3 4 5 6 show ?thesis by (intro conjI)
qed

subsection \<open>What each callback leaves unchanged\<close>

lemma upd_socket_frame [simp]:
  "connected (upd_socket w f s) = connected s"
  "connectPromise (upd_socket w f s) = connectPromise s"
  "handler (upd_socket w f s) = handler s"
  "keepAliveTimeout (upd_socket w f s) = keepAliveTimeout s"
  "pendingConnect (upd_socket w f s) = pendingConnect s"
  "pending (upd_socket w f s) = pending s"
  "ws (upd_socket w f s) = ws s"
  "timers (upd_socket w f s) = timers s"
  "now (upd_socket w f s) = now s"
  "loops (upd_socket w f s) = loops s"
  "next_promise (upd_socket w f s) = next_promise s"
  "awaiting (upd_socket w f s) = awaiting s"
  "returned (upd_socket w f s) = returned s"
  "attempts (upd_socket w f s) = attempts s"
  "calls (upd_socket w f s) = calls s"
  "handler_calls (upd_socket w f s) = handler_calls s"
  "dispatched (upd_socket w f s) = dispatched s"
  "console (upd_socket w f s) = console s"
  "uncaught (upd_socket w f s) = uncaught s"
  "unhandled (upd_socket w f s) = unhandled s"
  "length (sockets (upd_socket w f s)) = length (sockets s)"
  by (simp_all add: upd_socket_def)

lemma ws_close_frame [simp]:
  "connected (ws_close w s) = connected s"
  "connectPromise (ws_close w s) = connectPromise s"
  "handler (ws_close w s) = handler s"
  "keepAliveTimeout (ws_close w s) = keepAliveTimeout s"
  "pendingConnect (ws_close w s) = pendingConnect s"
  "pending (ws_close w s) = pending s"
  "ws (ws_close w s) = ws s"
  "timers (ws_close w s) = timers s"
  "now (ws_close w s) = now s"
  "loops (ws_close w s) = loops s"
  "next_promise (ws_close w s) = next_promise s"
  "awaiting (ws_close w s) = awaiting s"
  "returned (ws_close w s) = returned s"
  "attempts (ws_close w s) = attempts s"
  "calls (ws_close w s) = calls s"
  "handler_calls (ws_close w s) = handler_calls s"
  "dispatched (ws_close w s) = dispatched s"
  "console (ws_close w s) = console s"
  "uncaught (ws_close w s) = uncaught s"
  "unhandled (ws_close w s) = unhandled s"
  "length (sockets (ws_close w s)) = length (sockets s)"
  by (simp_all add: ws_close_def)

lemma setTimeout_frame [simp]:
  "connected (setTimeout k ms s) = connected s"
  "connectPromise (setTimeout k ms s) = connectPromise s"
  "handler (setTimeout k ms s) = handler s"
  "keepAliveTimeout (setTimeout k ms s) = keepAliveTimeout s"
  "pendingConnect (setTimeout k ms s) = pendingConnect s"
  "pending (setTimeout k ms s) = pending s"
  "ws (setTimeout k ms s) = ws s"
  "now (setTimeout k ms s) = now s"
  "loops (setTimeout k ms s) = loops s"
  "next_promise (setTimeout k ms s) = next_promise s"
  "awaiting (setTimeout k ms s) = awaiting s"
  "returned (setTimeout k ms s) = returned s"
  "attempts (setTimeout k ms s) = attempts s"
  "calls (setTimeout k ms s) = calls s"
  "handler_calls (setTimeout k ms s) = handler_calls s"
  "dispatched (setTimeout k ms s) = dispatched s"
  "console (setTimeout k ms s) = console s"
  "uncaught (setTimeout k ms s) = uncaught s"
  "unhandled (setTimeout k ms s) = unhandled s"
  "sockets (setTimeout k ms s) = sockets s"
  "length (timers (setTimeout k ms s)) = Suc (length (timers s))"
  by (simp_all add: setTimeout_def)

lemma clearTimeout_frame [simp]:
  "connected (clearTimeout t s) = connected s"
  "connectPromise (clearTimeout t s) = connectPromise s"
  "handler (clearTimeout t s) = handler s"
  "keepAliveTimeout (clearTimeout t s) = keepAliveTimeout s"
  "pendingConnect (clearTimeout t s) = pendingConnect s"
  "pending (clearTimeout t s) = pending s"
  "ws (clearTimeout t s) = ws s"
  "now (clearTimeout t s) = now s"
  "loops (clearTimeout t s) = loops s"
  "next_promise (clearTimeout t s) = next_promise s"
  "awaiting (clearTimeout t s) = awaiting s"
  "returned (clearTimeout t s) = returned s"
  "attempts (clearTimeout t s) = attempts s"
  "calls (clearTimeout t s) = calls s"
  "handler_calls (clearTimeout t s) = handler_calls s"
  "dispatched (clearTimeout t s) = dispatched s"
  "console (clearTimeout t s) = console s"
  "uncaught (clearTimeout t s) = uncaught s"
  "unhandled (clearTimeout t s) = unhandled s"
  "sockets (clearTimeout t s) = sockets s"
  "length (timers (clearTimeout t s)) = length (timers s)"
  by (simp_all add: clearTimeout_def)

lemma stopKeepAlive_frame [simp]:
  "connected (stopKeepAlive s) = connected s"
  "connectPromise (stopKeepAlive s) = connectPromise s"
  "handler (stopKeepAlive s) = handler s"
  "pendingConnect (stopKeepAlive s) = pendingConnect s"
  "pending (stopKeepAlive s) = pending s"
  "ws (stopKeepAlive s) = ws s"
  "now (stopKeepAlive s) = now s"
  "loops (stopKeepAlive s) = loops s"
  "next_promise (stopKeepAlive s) = next_promise s"
  "awaiting (stopKeepAlive s) = awaiting s"
  "returned (stopKeepAlive s) = returned s"
  "attempts (stopKeepAlive s) = attempts s"
  "calls (stopKeepAlive s) = calls s"
  "handler_calls (stopKeepAlive s) = handler_calls s"
  "dispatched (stopKeepAlive s) = dispatched s"
  "console (stopKeepAlive s) = console s"
  "uncaught (stopKeepAlive s) = uncaught s"
  "unhandled (stopKeepAlive s) = unhandled s"
  "sockets (stopKeepAlive s) = sockets s"
  "keepAliveTimeout (stopKeepAlive s) = None"
  by (simp_all add: stopKeepAlive_def split: option.splits)

lemma put_pc_frame [simp]:
  "connected (put_pc p c s) = connected s"
  "connectPromise (put_pc p c s) = connectPromise s"
  "handler (put_pc p c s) = handler s"
  "keepAliveTimeout (put_pc p c s) = keepAliveTimeout s"
  "pendingConnect (put_pc p c s) = pendingConnect s"
  "pending (put_pc p c s) = pending s"
  "ws (put_pc p c s) = ws s"
  "timers (put_pc p c s) = timers s"
  "now (put_pc p c s) = now s"
  "next_promise (put_pc p c s) = next_promise s"
  "awaiting (put_pc p c s) = awaiting s"
  "returned (put_pc p c s) = returned s"
  "attempts (put_pc p c s) = attempts s"
  "calls (put_pc p c s) = calls s"
  "handler_calls (put_pc p c s) = handler_calls s"
  "dispatched (put_pc p c s) = dispatched s"
  "console (put_pc p c s) = console s"
  "uncaught (put_pc p c s) = uncaught s"
  "unhandled (put_pc p c s) = unhandled s"
  "sockets (put_pc p c s) = sockets s"
  "loops (put_pc p c s) = filter (\<lambda>(q, d). q \<noteq> p) (loops s) @ [(p, c)]"
  by (simp_all add: put_pc_def)

lemma attempt_failed_frame [simp]:
  "connected (attempt_failed p e s) = connected s"
  "connectPromise (attempt_failed p e s) = connectPromise s"
  "handler (attempt_failed p e s) = handler s"
  "keepAliveTimeout (attempt_failed p e s) = keepAliveTimeout s"
  "pendingConnect (attempt_failed p e s) = pendingConnect s"
  "pending (attempt_failed p e s) = pending s"
  "ws (attempt_failed p e s) = ws s"
  "now (attempt_failed p e s) = now s"
  "next_promise (attempt_failed p e s) = next_promise s"
  "awaiting (attempt_failed p e s) = awaiting s"
  "returned (attempt_failed p e s) = returned s"
  "calls (attempt_failed p e s) = calls s"
  "handler_calls (attempt_failed p e s) = handler_calls s"
  "dispatched (attempt_failed p e s) = dispatched s"
  "console (attempt_failed p e s) = console s"
  "uncaught (attempt_failed p e s) = uncaught s"
  "unhandled (attempt_failed p e s) = unhandled s"
  "sockets (attempt_failed p e s) = sockets s"
  "loops (attempt_failed p e s) = filter (\<lambda>(q, d). q \<noteq> p) (loops s) @ [(p, AwaitBackoff (length (timers s)))]"
  "attempts (attempt_failed p e s) = attempts s @ [Some e]"
  by (simp_all add: attempt_failed_def)

lemma connect_priv_begin_frame [simp]:
  "connected (connect_priv_begin p s) = connected s"
  "connectPromise (connect_priv_begin p s) = connectPromise s"
  "handler (connect_priv_begin p s) = handler s"
  "keepAliveTimeout (connect_priv_begin p s) = keepAliveTimeout s"
  "pendingConnect (connect_priv_begin p s) = pendingConnect s"
  "ws (connect_priv_begin p s) = ws s"
  "timers (connect_priv_begin p s) = timers s"
  "now (connect_priv_begin p s) = now s"
  "next_promise (connect_priv_begin p s) = next_promise s"
  "awaiting (connect_priv_begin p s) = awaiting s"
  "returned (connect_priv_begin p s) = returned s"
  "attempts (connect_priv_begin p s) = attempts s"
  "calls (connect_priv_begin p s) = calls s"
  "handler_calls (connect_priv_begin p s) = handler_calls s"
  "dispatched (connect_priv_begin p s) = dispatched s"
  "console (connect_priv_begin p s) = console s"
  "uncaught (connect_priv_begin p s) = uncaught s"
  "unhandled (connect_priv_begin p s) = unhandled s"
  "sockets (connect_priv_begin p s) = sockets s"
  "pending (connect_priv_begin p s) = []"
  "loops (connect_priv_begin p s) = filter (\<lambda>(q, d). q \<noteq> p) (loops s) @ [(p, AwaitEndpoint)]"
  by (simp_all add: connect_priv_begin_def)

lemma loop_finish_frame [simp]:
  "connected (loop_finish p s) = connected s"
  "handler (loop_finish p s) = handler s"
  "keepAliveTimeout (loop_finish p s) = keepAliveTimeout s"
  "pendingConnect (loop_finish p s) = pendingConnect s"
  "pending (loop_finish p s) = pending s"
  "ws (loop_finish p s) = ws s"
  "timers (loop_finish p s) = timers s"
  "now (loop_finish p s) = now s"
  "next_promise (loop_finish p s) = next_promise s"
  "attempts (loop_finish p s) = attempts s"
  "calls (loop_finish p s) = calls s"
  "handler_calls (loop_finish p s) = handler_calls s"
  "dispatched (loop_finish p s) = dispatched s"
  "console (loop_finish p s) = console s"
  "uncaught (loop_finish p s) = uncaught s"
  "unhandled (loop_finish p s) = unhandled s"
  "sockets (loop_finish p s) = sockets s"
  "connectPromise (loop_finish p s) = None"
  "loops (loop_finish p s) = filter (\<lambda>(q, d). q \<noteq> p) (loops s)"
  by (simp_all add: loop_finish_def)

lemma loop_head_frame [simp]:
  "connected (loop_head p s) = connected s"
  "handler (loop_head p s) = handler s"
  "keepAliveTimeout (loop_head p s) = keepAliveTimeout s"
  "pendingConnect (loop_head p s) = pendingConnect s"
  "ws (loop_head p s) = ws s"
  "timers (loop_head p s) = timers s"
  "now (loop_head p s) = now s"
  "next_promise (loop_head p s) = next_promise s"
  "attempts (loop_head p s) = attempts s"
  "calls (loop_head p s) = calls s"
  "handler_calls (loop_head p s) = handler_calls s"
  "dispatched (loop_head p s) = dispatched s"
  "console (loop_head p s) = console s"
  "uncaught (loop_head p s) = uncaught s"
  "unhandled (loop_head p s) = unhandled s"
  "sockets (loop_head p s) = sockets s"
  by (simp_all add: loop_head_def)

lemma reject_open_frame [simp]:
  "connected (reject_open w e s) = connected s"
  "connectPromise (reject_open w e s) = connectPromise s"
  "handler (reject_open w e s) = handler s"
  "keepAliveTimeout (reject_open w e s) = keepAliveTimeout s"
  "pendingConnect (reject_open w e s) = pendingConnect s"
  "pending (reject_open w e s) = pending s"
  "ws (reject_open w e s) = ws s"
  "now (reject_open w e s) = now s"
  "next_promise (reject_open w e s) = next_promise s"
  "awaiting (reject_open w e s) = awaiting s"
  "returned (reject_open w e s) = returned s"
  "calls (reject_open w e s) = calls s"
  "handler_calls (reject_open w e s) = handler_calls s"
  "dispatched (reject_open w e s) = dispatched s"
  "console (reject_open w e s) = console s"
  "uncaught (reject_open w e s) = uncaught s"
  "unhandled (reject_open w e s) = unhandled s"
  "sockets (reject_open w e s) = sockets s"
  by (simp_all add: reject_open_def split: list.splits)

lemma await_promise_frame [simp]:
  "connected (await_promise c p s) = connected s"
  "connectPromise (await_promise c p s) = connectPromise s"
  "handler (await_promise c p s) = handler s"
  "keepAliveTimeout (await_promise c p s) = keepAliveTimeout s"
  "pendingConnect (await_promise c p s) = pendingConnect s"
  "pending (await_promise c p s) = pending s"
  "ws (await_promise c p s) = ws s"
  "timers (await_promise c p s) = timers s"
  "now (await_promise c p s) = now s"
  "loops (await_promise c p s) = loops s"
  "next_promise (await_promise c p s) = next_promise s"
  "attempts (await_promise c p s) = attempts s"
  "calls (await_promise c p s) = calls s"
  "handler_calls (await_promise c p s) = handler_calls s"
  "dispatched (await_promise c p s) = dispatched s"
  "console (await_promise c p s) = console s"
  "uncaught (await_promise c p s) = uncaught s"
  "unhandled (await_promise c p s) = unhandled s"
  "sockets (await_promise c p s) = sockets s"
  by (simp_all add: await_promise_def)

lemma handleMessage_frame [simp]:
  "connected (handleMessage h s) = connected s"
  "connectPromise (handleMessage h s) = connectPromise s"
  "keepAliveTimeout (handleMessage h s) = keepAliveTimeout s"
  "pendingConnect (handleMessage h s) = pendingConnect s"
  "pending (handleMessage h s) = pending s"
  "ws (handleMessage h s) = ws s"
  "timers (handleMessage h s) = timers s"
  "now (handleMessage h s) = now s"
  "loops (handleMessage h s) = loops s"
  "next_promise (handleMessage h s) = next_promise s"
  "awaiting (handleMessage h s) = awaiting s"
  "returned (handleMessage h s) = returned s"
  "attempts (handleMessage h s) = attempts s"
  "calls (handleMessage h s) = calls s"
  "handler_calls (handleMessage h s) = handler_calls s"
  "dispatched (handleMessage h s) = dispatched s"
  "console (handleMessage h s) = console s"
  "uncaught (handleMessage h s) = uncaught s"
  "unhandled (handleMessage h s) = unhandled s"
  "sockets (handleMessage h s) = sockets s"
  by (simp_all add: handleMessage_def)

lemma ws_on_message_frame [simp]:
  "connected (ws_on_message d iv s) = connected s"
  "connectPromise (ws_on_message d iv s) = connectPromise s"
  "handler (ws_on_message d iv s) = handler s"
  "keepAliveTimeout (ws_on_message d iv s) = keepAliveTimeout s"
  "pendingConnect (ws_on_message d iv s) = pendingConnect s"
  "pending (ws_on_message d iv s) = pending s"
  "ws (ws_on_message d iv s) = ws s"
  "timers (ws_on_message d iv s) = timers s"
  "now (ws_on_message d iv s) = now s"
  "loops (ws_on_message d iv s) = loops s"
  "next_promise (ws_on_message d iv s) = next_promise s"
  "awaiting (ws_on_message d iv s) = awaiting s"
  "returned (ws_on_message d iv s) = returned s"
  "attempts (ws_on_message d iv s) = attempts s"
  "calls (ws_on_message d iv s) = calls s"
  "uncaught (ws_on_message d iv s) = uncaught s"
  "unhandled (ws_on_message d iv s) = unhandled s"
  "sockets (ws_on_message d iv s) = sockets s"
  by (simp_all add: ws_on_message_def split: sum.splits option.splits invoke.splits prod.splits)

lemma handler_settled_frame [simp]:
  "connected (handler_settled d r s) = connected s"
  "connectPromise (handler_settled d r s) = connectPromise s"
  "handler (handler_settled d r s) = handler s"
  "keepAliveTimeout (handler_settled d r s) = keepAliveTimeout s"
  "pendingConnect (handler_settled d r s) = pendingConnect s"
  "ws (handler_settled d r s) = ws s"
  "timers (handler_settled d r s) = timers s"
  "now (handler_settled d r s) = now s"
  "loops (handler_settled d r s) = loops s"
  "next_promise (handler_settled d r s) = next_promise s"
  "awaiting (handler_settled d r s) = awaiting s"
  "returned (handler_settled d r s) = returned s"
  "attempts (handler_settled d r s) = attempts s"
  "calls (handler_settled d r s) = calls s"
  "handler_calls (handler_settled d r s) = handler_calls s"
  "console (handler_settled d r s) = console s"
  "uncaught (handler_settled d r s) = uncaught s"
  "sockets (handler_settled d r s) = sockets s"
  by (simp_all add: handler_settled_def Let_def split: settle.splits)

lemma ws_once_pong_frame [simp]:
  "connected (ws_once_pong w s) = connected s"
  "connectPromise (ws_once_pong w s) = connectPromise s"
  "handler (ws_once_pong w s) = handler s"
  "pendingConnect (ws_once_pong w s) = pendingConnect s"
  "pending (ws_once_pong w s) = pending s"
  "ws (ws_once_pong w s) = ws s"
  "now (ws_once_pong w s) = now s"
  "loops (ws_once_pong w s) = loops s"
  "next_promise (ws_once_pong w s) = next_promise s"
  "awaiting (ws_once_pong w s) = awaiting s"
  "returned (ws_once_pong w s) = returned s"
  "attempts (ws_once_pong w s) = attempts s"
  "calls (ws_once_pong w s) = calls s"
  "handler_calls (ws_once_pong w s) = handler_calls s"
  "dispatched (ws_once_pong w s) = dispatched s"
  "console (ws_once_pong w s) = console s"
  "uncaught (ws_once_pong w s) = uncaught s"
  "unhandled (ws_once_pong w s) = unhandled s"
  "sockets (ws_once_pong w s) = sockets s"
  by (simp_all add: ws_once_pong_def Let_def split: option.splits)

lemma startKeepAlive_frame:
  assumes "startKeepAlive s = Inr s'"
  shows "ws s' = ws s" "length (sockets s') = length (sockets s)" "loops s' = loops s"
    "connectPromise s' = connectPromise s" "connected s' = connected s"
    "pendingConnect s' = pendingConnect s" "pending s' = pending s" "calls s' = calls s"
    "attempts s' = attempts s" "awaiting s' = awaiting s" "returned s' = returned s"
  using assms
  by (auto simp: startKeepAlive_def Let_def split: if_splits option.splits)

lemma funpow_once_pong_frame [simp]:
  "ws ((ws_once_pong w ^^ n) s) = ws s"
  "sockets ((ws_once_pong w ^^ n) s) = sockets s"
  "loops ((ws_once_pong w ^^ n) s) = loops s"
  "connectPromise ((ws_once_pong w ^^ n) s) = connectPromise s"
  "connected ((ws_once_pong w ^^ n) s) = connected s"
  by (induction n) simp_all

subsection \<open>The pending table across transports\<close>

lemma close_fails_pending:
  assumes "w < length (sockets s)" "list_all (\<lambda>(k, c). cb_throws c = None) (pending s)"
  shows "calls (step (WsClose w r) s) = calls s @ map (\<lambda>(k, c). (c, Disconnected r)) (pending s)
    \<and> pending (step (WsClose w r) s) = []"
  using assms by (simp add: ws_on_close_def forEach_fail_ok)

lemma ws_once_error_frame [simp]:
  "pending (ws_once_error w e s) = pending s"
  "calls (ws_once_error w e s) = calls s"
  by (simp_all add: ws_once_error_def)

lemma error_fails_pending:
  assumes "w < length (sockets s)" "on_error (sockets s ! w)"
    "list_all (\<lambda>(k, c). cb_throws c = None) (pending s)"
  shows "calls (step (WsError w e) s) = calls s @ map (\<lambda>(k, c). (c, e)) (pending s)
    \<and> pending (step (WsError w e) s) = []"
  using assms
  by (simp add: emit_error_def ws_on_error_def forEach_fail_ok Let_def upd_socket_def)

lemma attempt_start_resets:
  assumes "pendingConnect s"
  shows "pending (loop_head p s) = [] \<and> calls (loop_head p s) = calls s
    \<and> sockets (loop_head p s) = sockets s \<and> ws (loop_head p s) = ws s
    \<and> loops (loop_head p s) = filter (\<lambda>(q, d). q \<noteq> p) (loops s) @ [(p, AwaitEndpoint)]"
  using assms by (simp add: loop_head_def connect_priv_begin_def put_pc_def)

lemma connect_starts_attempt:
  assumes "\<not> connected s" "connectPromise s = None"
  shows "step (Connect c) s = await_promise c (next_promise s)
     ((loop_head (next_promise s) (s\<lparr>pendingConnect := True, next_promise := Suc (next_promise s)\<rparr>))
        \<lparr>connectPromise := Some (next_promise s)\<rparr>)"
  using assms by (simp add: connect_def reconnect_def Let_def)


lemma connect_resets_pending:
  assumes "\<not> connected s" "connectPromise s = None"
  shows "pending (step (Connect c) s) = [] \<and> calls (step (Connect c) s) = calls s
    \<and> sockets (step (Connect c) s) = sockets s"
  unfolding connect_starts_attempt [OF assms]
  by (simp add: await_promise_def loop_head_def connect_priv_begin_def put_pc_def)

lemma resolved_keeps_pending:
  "pending (step (EndpointResolved p u ctor) s) = pending s
   \<and> calls (step (EndpointResolved p u ctor) s) = calls s"
  by (simp add: connect_priv_resolved_def put_pc_def split: option.splits)

text \<open>
  C2, as the specification states it, fails when a transport is replaced. A connected
  monitor with one outstanding request is disconnected and connected again: the new
  socket is open and current, \<^verbatim>\<open>pending\<close> is empty, and the callback of the
  outstanding request was never called.
\<close>

theorem replaced_transport_drops_pending_counterexample:
  "pending ((run [Connect 0, EndpointResolved 0 ''u'' None, WsOpen 0] init)
       \<lparr>pending := [(KNum 7, Callback 1 None)]\<rparr>) = [(KNum 7, Callback 1 None)]
   \<and> ws (run [Disconnect, Connect 1, EndpointResolved 1 ''v'' None, WsOpen 1]
        ((run [Connect 0, EndpointResolved 0 ''u'' None, WsOpen 0] init)
           \<lparr>pending := [(KNum 7, Callback 1 None)]\<rparr>)) = Some 1
   \<and> connected (run [Disconnect, Connect 1, EndpointResolved 1 ''v'' None, WsOpen 1]
        ((run [Connect 0, EndpointResolved 0 ''u'' None, WsOpen 0] init)
           \<lparr>pending := [(KNum 7, Callback 1 None)]\<rparr>))
   \<and> pending (run [Disconnect, Connect 1, EndpointResolved 1 ''v'' None, WsOpen 1]
        ((run [Connect 0, EndpointResolved 0 ''u'' None, WsOpen 0] init)
           \<lparr>pending := [(KNum 7, Callback 1 None)]\<rparr>)) = []
   \<and> calls (run [Disconnect, Connect 1, EndpointResolved 1 ''v'' None, WsOpen 1]
        ((run [Connect 0, EndpointResolved 0 ''u'' None, WsOpen 0] init)
           \<lparr>pending := [(KNum 7, Callback 1 None)]\<rparr>)) = []"
  unfolding opened_from_init
  by (simp add: run_Cons run_Nil init_def api_defs Let_def)

text \<open>
  C2, amended. When the \<^verbatim>\<open>close\<close> event of a socket fires, or an \<^verbatim>\<open>error\<close>
  event of a socket that completed its open, and no other socket is the current one,
  every callback in \<^verbatim>\<open>pending\<close> is called once, in insertion order, with the
  disconnection error or with the socket's error (none of them throwing), and the table is
  then empty. Every open attempt begins by emptying \<^verbatim>\<open>pending\<close>, calling no callback
  and making no socket: so does a \<^verbatim>\<open>connect()\<close> that starts a loop. The later step
  that makes the socket leaves \<^verbatim>\<open>pending\<close> as the reset left it.
\<close>

theorem pending_failed_and_reset:
  "(w < length (sockets s) \<and> (ws s = None \<or> ws s = Some w)
      \<and> list_all (\<lambda>(k, c). cb_throws c = None) (pending s) \<longrightarrow>
      calls (step (WsClose w r) s) = calls s @ map (\<lambda>(k, c). (c, Disconnected r)) (pending s)
      \<and> pending (step (WsClose w r) s) = [])
   \<and> (w < length (sockets s) \<and> on_error (sockets s ! w) \<and> (ws s = None \<or> ws s = Some w)
      \<and> list_all (\<lambda>(k, c). cb_throws c = None) (pending s) \<longrightarrow>
      calls (step (WsError w e) s) = calls s @ map (\<lambda>(k, c). (c, e)) (pending s)
      \<and> pending (step (WsError w e) s) = [])
   \<and> (pendingConnect s \<longrightarrow>
      pending (loop_head p s) = [] \<and> calls (loop_head p s) = calls s
      \<and> sockets (loop_head p s) = sockets s \<and> ws (loop_head p s) = ws s)
   \<and> (\<not> connected s \<and> connectPromise s = None \<longrightarrow>
      pending (step (Connect c) s) = [] \<and> calls (step (Connect c) s) = calls s
      \<and> sockets (step (Connect c) s) = sockets s)
   \<and> pending (step (EndpointResolved p u ctor) s) = pending s
   \<and> calls (step (EndpointResolved p u ctor) s) = calls s"
proof (intro conjI impI)
  assume "w < length (sockets s) \<and> (ws s = None \<or> ws s = Some w)
      \<and> list_all (\<lambda>(k, c). cb_throws c = None) (pending s)"
  then have h: "w < length (sockets s)" "list_all (\<lambda>(k, c). cb_throws c = None) (pending s)"
    by simp_all
  from close_fails_pending [OF h]
  show "calls (step (WsClose w r) s) = calls s @ map (\<lambda>(k, c). (c, Disconnected r)) (pending s)"
    and "pending (step (WsClose w r) s) = []"
    by simp_all
next
  assume "w < length (sockets s) \<and> on_error (sockets s ! w) \<and> (ws s = None \<or> ws s = Some w)
      \<and> list_all (\<lambda>(k, c). cb_throws c = None) (pending s)"
  then have h: "w < length (sockets s)" "on_error (sockets s ! w)"
    "list_all (\<lambda>(k, c). cb_throws c = None) (pending s)"
    by simp_all
  from error_fails_pending [OF h]
  show "calls (step (WsError w e) s) = calls s @ map (\<lambda>(k, c). (c, e)) (pending s)"
    and "pending (step (WsError w e) s) = []"
    by simp_all
next
  assume h: "pendingConnect s"
  from attempt_start_resets [OF h]
  show "pending (loop_head p s) = []" and "calls (loop_head p s) = calls s"
    and "sockets (loop_head p s) = sockets s" and "ws (loop_head p s) = ws s"
    by simp_all
next
  assume "\<not> connected s \<and> connectPromise s = None"
  then have h: "\<not> connected s" "connectPromise s = None" by simp_all
  from connect_resets_pending [OF h]
  show "pending (step (Connect c) s) = []" and "calls (step (Connect c) s) = calls s"
    and "sockets (step (Connect c) s) = sockets s"
    by simp_all
next
  from resolved_keeps_pending
  show "pending (step (EndpointResolved p u ctor) s) = pending s"
    and "calls (step (EndpointResolved p u ctor) s) = calls s"
    by simp_all
qed

theorem pending_failed_and_reset_witness:
  "calls (step (WsClose 0 ''bye'') ((run [Connect 0, EndpointResolved 0 ''u'' None, WsOpen 0] init)
       \<lparr>pending := [(KNum 7, Callback 1 None), (KNum 8, Callback 2 None)]\<rparr>))
     = [(Callback 1 None, Disconnected ''bye''), (Callback 2 None, Disconnected ''bye'')]
   \<and> pending (step (WsClose 0 ''bye'') ((run [Connect 0, EndpointResolved 0 ''u'' None, WsOpen 0] init)
       \<lparr>pending := [(KNum 7, Callback 1 None), (KNum 8, Callback 2 None)]\<rparr>)) = []
   \<and> calls (step (WsError 0 (Thrown ''reset'')) ((run [Connect 0, EndpointResolved 0 ''u'' None, WsOpen 0] init)
       \<lparr>pending := [(KNum 7, Callback 1 None), (KNum 8, Callback 2 None)]\<rparr>))
     = [(Callback 1 None, Thrown ''reset''), (Callback 2 None, Thrown ''reset'')]
   \<and> pending (step (Connect 0) (init\<lparr>pending := [(KNum 7, Callback 1 None)]\<rparr>)) = []
   \<and> calls (step (Connect 0) (init\<lparr>pending := [(KNum 7, Callback 1 None)]\<rparr>)) = []"
proof -
  let ?b = "(run [Connect 0, EndpointResolved 0 ''u'' None, WsOpen 0] init)
       \<lparr>pending := [(KNum 7, Callback 1 None), (KNum 8, Callback 2 None)]\<rparr>"
  let ?i = "init\<lparr>pending := [(KNum 7, Callback 1 None)]\<rparr>"
  have hb: "0 < length (sockets ?b) \<and> (ws ?b = None \<or> ws ?b = Some 0)
      \<and> list_all (\<lambda>(k, c). cb_throws c = None) (pending ?b)"
    and eb: "0 < length (sockets ?b) \<and> on_error (sockets ?b ! 0) \<and> (ws ?b = None \<or> ws ?b = Some 0)
      \<and> list_all (\<lambda>(k, c). cb_throws c = None) (pending ?b)"
    and tb: "calls ?b = []" "pending ?b = [(KNum 7, Callback 1 None), (KNum 8, Callback 2 None)]"
    unfolding opened_from_init by (simp_all add: init_def)
  have hi: "\<not> connected ?i \<and> connectPromise ?i = None" and ti: "calls ?i = []"
    by (simp_all add: init_def)
  have 1: "calls (step (WsClose 0 ''bye'') ?b)
     = [(Callback 1 None, Disconnected ''bye''), (Callback 2 None, Disconnected ''bye'')]"
    and 2: "pending (step (WsClose 0 ''bye'') ?b) = []"
    using pending_failed_and_reset [of 0 ?b "''bye''"] hb unfolding tb by simp_all
  have 3: "calls (step (WsError 0 (Thrown ''reset'')) ?b)
     = [(Callback 1 None, Thrown ''reset''), (Callback 2 None, Thrown ''reset'')]"
    using pending_failed_and_reset [of 0 ?b _ "Thrown ''reset''"] eb unfolding tb by simp
  have 4: "pending (step (Connect 0) ?i) = []" and 5: "calls (step (Connect 0) ?i) = []"
    using pending_failed_and_reset [of _ ?i _ _ _ 0] hi unfolding ti by simp_all
  from 1 2 3 4 5 show ?thesis by (intro conjI)
qed

subsection \<open>A superseded socket stays superseded\<close>

lemma superseded_disconnect_priv: "superseded w s \<Longrightarrow> superseded w (disconnect_priv s)"
  by (simp add: superseded_def)

lemma superseded_connect_priv_resolved:
  "superseded w s \<Longrightarrow> superseded w (connect_priv_resolved p u ctor s)"
  by (auto simp: superseded_def connect_priv_resolved_def split: option.splits)

lemma superseded_connect_priv_opened:
  "superseded w s \<Longrightarrow> superseded w (connect_priv_opened p s)"
  by (auto simp: superseded_def connect_priv_opened_def startKeepAlive_def Let_def
      split: sum.splits option.splits if_splits)

lemma superseded_reconnect: "superseded w s \<Longrightarrow> superseded w (reconnect c s)"
  by (auto simp: superseded_def reconnect_def disconnect_def Let_def split: option.splits)

lemma superseded_connect: "superseded w s \<Longrightarrow> superseded w (connect c s)"
  using superseded_reconnect [of w "s\<lparr>pendingConnect := True\<rparr>" c]
  by (auto simp: connect_def Let_def superseded_def)

lemma superseded_ws_on_close: "superseded w s \<Longrightarrow> superseded w (ws_on_close r s)"
  by (auto simp: superseded_def ws_on_close_def split: prod.splits option.splits)

lemma superseded_emit_open: "superseded w s \<Longrightarrow> superseded w (emit_open v s)"
  using superseded_connect_priv_opened [of w _ _]
  by (auto simp: superseded_def emit_open_def ws_once_open_def resolve_open_def
      split: list.splits)

lemma superseded_emit_error: "superseded w s \<Longrightarrow> superseded w (emit_error v e s)"
  by (auto simp: superseded_def emit_error_def ws_once_error_def ws_on_error_def Let_def
      split: prod.splits option.splits)

lemma superseded_fire: "superseded w s \<Longrightarrow> superseded w (fire t s)"
  by (auto simp: superseded_def fire_def keepAlive_timeout_def Let_def
      dest: startKeepAlive_frame
      split: timer_kind.splits prod.splits option.splits sum.splits)

lemma superseded_step:
  assumes "superseded w s"
  shows "superseded w (step e s)"
proof (cases e)
  case (Connect c)
  with assms show ?thesis using superseded_connect by simp
next
  case (Reconnect c)
  with assms show ?thesis using superseded_reconnect by simp
next
  case Disconnect
  with assms show ?thesis by (simp add: disconnect_def superseded_def)
next
  case (HandleMessage h)
  with assms show ?thesis by (simp add: superseded_def)
next
  case (EndpointResolved p u ctor)
  with assms show ?thesis using superseded_connect_priv_resolved by simp
next
  case (EndpointFailed p e)
  with assms show ?thesis by (simp add: superseded_def)
next
  case (WsOpen v)
  with assms show ?thesis using superseded_emit_open by simp
next
  case (WsError v e)
  with assms show ?thesis using superseded_emit_error by simp
next
  case (WsClose v r)
  with assms show ?thesis using superseded_ws_on_close by simp
next
  case (WsMessage v d iv)
  with assms show ?thesis by (simp add: superseded_def)
next
  case (WsPong v)
  with assms show ?thesis by (simp add: superseded_def emit_pong_def)
next
  case (HandlerSettled d r)
  with assms show ?thesis by (simp add: superseded_def)
next
  case (TimerFired t)
  with assms show ?thesis using superseded_fire by simp
next
  case (Tick d)
  with assms show ?thesis by (simp add: superseded_def)
qed

lemma superseded_run: "superseded w s \<Longrightarrow> superseded w (run es s)"
  by (induction es arbitrary: s) (simp_all add: run_Nil run_Cons superseded_step)

subsection \<open>One loop at a time\<close>

lemma single_flight_cases:
  assumes "single_flight s"
  obtains "loops s = []" | p c where "loops s = [(p, c)]" "connectPromise s = Some p" "\<not> connected s"
  using assms by (auto simp: single_flight_def split: list.splits)

lemma single_flight_frame:
  assumes "single_flight s" "loops s' = loops s" "connectPromise s' = connectPromise s"
    "connected s' \<longrightarrow> connected s"
  shows "single_flight s'"
  using assms by (auto simp: single_flight_def split: list.splits)

lemma single_flight_disconnect_priv: "single_flight s \<Longrightarrow> single_flight (disconnect_priv s)"
  by (erule single_flight_frame) simp_all

lemma single_flight_ws_close: "single_flight s \<Longrightarrow> single_flight (ws_close w s)"
  by (erule single_flight_frame) simp_all

lemma single_flight_attempt_failed:
  assumes "single_flight s" "p \<in> fst ` set (loops s)"
  shows "single_flight (attempt_failed p e s)"
  using assms by (auto simp: single_flight_def split: list.splits)

lemma single_flight_reject_open:
  assumes "single_flight s"
  shows "single_flight (reject_open w e s)"
proof (cases "awaiting_open w s")
  case Nil
  with assms show ?thesis by (simp add: reject_open_def)
next
  case (Cons p ps)
  then have "p \<in> set (awaiting_open w s)" by simp
  then have "p \<in> fst ` set (loops s)" by (auto simp: awaiting_open_def)
  with assms Cons show ?thesis by (simp add: reject_open_def single_flight_attempt_failed)
qed

lemma single_flight_loop_head:
  assumes "single_flight s" "p \<in> fst ` set (loops s)"
  shows "single_flight (loop_head p s)"
  using assms by (auto simp: single_flight_def loop_head_def split: list.splits)

lemma single_flight_reconnect:
  assumes "single_flight s"
  shows "single_flight (reconnect c s)"
proof -
  define s1 where "s1 = (if connected s then disconnect s else s)"
  have 1: "single_flight s1" "\<not> connected s1"
    using assms by (auto simp: s1_def disconnect_def intro: single_flight_frame)
  show ?thesis
  proof (cases "connectPromise s1")
    case (Some p)
    with 1 show ?thesis
      unfolding reconnect_def s1_def [symmetric] Let_def
      by (auto intro: single_flight_frame)
  next
    case None
    with 1 have "loops s1 = []" by (auto elim: single_flight_cases)
    with None 1 show ?thesis
      unfolding reconnect_def s1_def [symmetric] Let_def
      by (auto simp: single_flight_def loop_head_def)
  qed
qed

lemma single_flight_connect:
  assumes "single_flight s"
  shows "single_flight (connect c s)"
proof -
  have 1: "single_flight (s\<lparr>pendingConnect := True\<rparr>)"
    using assms by (rule single_flight_frame) simp_all
  show ?thesis
  proof (cases "connected s")
    case True
    then have "connect c s = s\<lparr>pendingConnect := True, returned := returned s @ [c]\<rparr>"
      by (simp add: connect_def Let_def)
    with assms show ?thesis by (auto intro: single_flight_frame)
  next
    case False
    then have "connect c s = reconnect c (s\<lparr>pendingConnect := True\<rparr>)"
      by (simp add: connect_def Let_def)
    with 1 show ?thesis by (simp add: single_flight_reconnect)
  qed
qed

lemma single_flight_resolved:
  assumes "single_flight s" "(p, AwaitEndpoint) \<in> set (loops s)"
  shows "single_flight (connect_priv_resolved p u ctor s)"
  using assms
  by (auto simp: single_flight_def connect_priv_resolved_def split: list.splits option.splits)

lemma single_flight_emit_open:
  assumes "single_flight s"
  shows "single_flight (emit_open w s)"
proof (cases "w < length (sockets s) \<and> once_open (sockets s ! w)")
  case False
  with assms show ?thesis by (auto simp: emit_open_def)
next
  case True
  define s1 where "s1 = upd_socket w (\<lambda>k. k\<lparr>once_open := False\<rparr>) s"
  have 1: "single_flight s1" using assms by (auto simp: s1_def intro: single_flight_frame)
  show ?thesis
  proof (cases "ws s = Some w")
    case False
    then have "emit_open w s = reject_open w ConnectionCancelled (ws_close w s1)"
      using True by (simp add: emit_open_def ws_once_open_def s1_def)
    with 1 show ?thesis by (simp add: single_flight_reject_open single_flight_ws_close)
  next
    case ws: True
    define s2 where "s2 = upd_socket w (\<lambda>k. k\<lparr>on_error := True\<rparr>) s1"
    have 2: "single_flight s2" "ws s2 = Some w"
      using 1 ws by (auto simp: s2_def s1_def intro: single_flight_frame)
    have e: "emit_open w s = resolve_open w s2"
      using True ws by (simp add: emit_open_def ws_once_open_def s1_def s2_def)
    show ?thesis
    proof (cases "awaiting_open w s2")
      case Nil
      with 2 e show ?thesis by (simp add: resolve_open_def)
    next
      case (Cons p ps)
      then have "p \<in> set (awaiting_open w s2)" by simp
      then have "p \<in> fst ` set (loops s2)" by (auto simp: awaiting_open_def)
      with 2(1) have l: "loops s2 = [(p, snd (hd (loops s2)))]"
        by (auto elim!: single_flight_cases)
      obtain s3 where k: "startKeepAlive (s2\<lparr>connected := True\<rparr>) = Inr s3"
        using 2(2) by (simp add: startKeepAlive_def Let_def)
      from startKeepAlive_frame [OF k] l have "loops s3 = [(p, snd (hd (loops s2)))]" by simp
      then have "single_flight (loop_finish p (s3\<lparr>attempts := attempts s3 @ [None]\<rparr>))"
        by (simp add: single_flight_def)
      with e Cons k show ?thesis by (simp add: resolve_open_def connect_priv_opened_def)
    qed
  qed
qed


lemma single_flight_ws_once_error:
  "single_flight s \<Longrightarrow> single_flight (ws_once_error w e s)"
  by (simp add: ws_once_error_def single_flight_reject_open single_flight_disconnect_priv
      single_flight_ws_close)

lemma single_flight_ws_on_error:
  assumes "single_flight s"
  shows "single_flight (ws_on_error w e s)"
proof (cases "forEach_fail e (pending s)")
  case (Pair cs r)
  show ?thesis
  proof (cases r)
    case (Some x)
    with Pair assms show ?thesis
      by (auto simp: ws_on_error_def intro: single_flight_frame)
  next
    case None
    define s1 where "s1 = s\<lparr>calls := calls s @ cs, pending := []\<rparr>"
    define s2 where "s2 = (if ws s1 = Some w then disconnect_priv s1 else ws_close w s1)"
    have "single_flight s1" using assms by (auto simp: s1_def intro: single_flight_frame)
    then have "single_flight s2"
      by (simp add: s2_def single_flight_disconnect_priv single_flight_ws_close)
    then have 3: "single_flight (s2\<lparr>console := console s2 @ [NetmonSocketError e]\<rparr>)"
      by (rule single_flight_frame) simp_all
    have eq: "ws_on_error w e s = s2\<lparr>console := console s2 @ [NetmonSocketError e]\<rparr>"
      using Pair None by (simp add: ws_on_error_def Let_def s1_def s2_def)
    show ?thesis unfolding eq by (rule 3)
  qed
qed

lemma single_flight_emit_error:
  assumes "single_flight s"
  shows "single_flight (emit_error w e s)"
proof -
  have 1: "single_flight (upd_socket w (\<lambda>k. k\<lparr>once_error := False\<rparr>) s)"
    using assms by (rule single_flight_frame) simp_all
  have 2: "single_flight (s\<lparr>uncaught := uncaught s @ [e]\<rparr>)"
    using assms by (rule single_flight_frame) simp_all
  from assms 1 2 show ?thesis
    by (simp add: emit_error_def Let_def single_flight_ws_once_error single_flight_ws_on_error)
qed

lemma single_flight_ws_on_close:
  assumes "single_flight s"
  shows "single_flight (ws_on_close r s)"
proof (cases "forEach_fail (Disconnected r) (pending s)")
  case (Pair cs x)
  have 1: "single_flight (s\<lparr>calls := calls s @ cs, uncaught := uncaught s @ [y]\<rparr>)" for y
    using assms by (rule single_flight_frame) simp_all
  have "single_flight (s\<lparr>calls := calls s @ cs, pending := []\<rparr>)"
    using assms by (rule single_flight_frame) simp_all
  then have 2: "single_flight (disconnect_priv (s\<lparr>calls := calls s @ cs, pending := []\<rparr>))"
    by (rule single_flight_disconnect_priv)
  from Pair 1 2 show ?thesis
    by (cases x) (simp_all add: ws_on_close_def)
qed

lemma single_flight_keepAlive_timeout:
  assumes "single_flight s"
  shows "single_flight (keepAlive_timeout w s)"
proof (cases "forEach_fail KeepAliveTimeout (pending s)")
  case (Pair cs x)
  define s1 where "s1 = s\<lparr>console := console s @ [NoPongLog]\<rparr>"
  have 0: "single_flight s1" using assms unfolding s1_def by (rule single_flight_frame) simp_all
  have 1: "single_flight (s1\<lparr>calls := calls s1 @ cs, uncaught := uncaught s1 @ [y]\<rparr>)" for y
    using 0 by (rule single_flight_frame) simp_all
  have "single_flight (s1\<lparr>calls := calls s1 @ cs, pending := []\<rparr>)"
    using 0 by (rule single_flight_frame) simp_all
  then have 2: "single_flight (disconnect_priv (s1\<lparr>calls := calls s1 @ cs, pending := []\<rparr>))"
    by (rule single_flight_disconnect_priv)
  have p: "pending s1 = pending s" by (simp add: s1_def)
  from Pair 1 2 assms p show ?thesis
    by (cases x) (simp_all add: keepAlive_timeout_def Let_def s1_def [symmetric] single_flight_ws_close)
qed

lemma single_flight_fire:
  assumes "single_flight s"
  shows "single_flight (fire t s)"
proof (cases "t < length (timers s) \<and> active (timers s ! t) \<and> due (timers s ! t) \<le> now s")
  case False
  with assms show ?thesis by (auto simp: fire_def)
next
  case True
  define s1 where "s1 = clearTimeout t s"
  have 1: "single_flight s1" using assms unfolding s1_def by (rule single_flight_frame) simp_all
  show ?thesis
  proof (cases "kind (timers s ! t)")
    case (Backoff p)
    have "single_flight (loop_head p s1)" if "(p, AwaitBackoff t) \<in> set (loops s1)"
    proof -
      from that have "p \<in> fst ` set (loops s1)" by force
      with 1 show ?thesis by (rule single_flight_loop_head)
    qed
    with True Backoff 1 show ?thesis by (simp add: fire_def Let_def s1_def)
  next
    case (Deadline w)
    with True 1 show ?thesis
      by (simp add: fire_def Let_def s1_def single_flight_keepAlive_timeout)
  next
    case Idle
    show ?thesis
    proof (cases "startKeepAlive s1")
      case (Inl e)
      have "single_flight (s1\<lparr>unhandled := unhandled s1 @ [e]\<rparr>)"
        using 1 by (rule single_flight_frame) simp_all
      with True Idle Inl show ?thesis by (simp add: fire_def Let_def s1_def)
    next
      case (Inr s2)
      have "single_flight s2"
        using 1 startKeepAlive_frame [OF Inr] by (auto intro: single_flight_frame)
      with True Idle Inr show ?thesis by (simp add: fire_def Let_def s1_def)
    qed
  qed
qed

lemma single_flight_step:
  assumes "single_flight s"
  shows "single_flight (step e s)"
proof (cases e)
  case (Connect c)
  with assms show ?thesis by (simp add: single_flight_connect)
next
  case (Reconnect c)
  with assms show ?thesis by (simp add: single_flight_reconnect)
next
  case Disconnect
  have "single_flight (s\<lparr>pendingConnect := False\<rparr>)"
    using assms by (rule single_flight_frame) simp_all
  with Disconnect show ?thesis by (simp add: disconnect_def single_flight_disconnect_priv)
next
  case (HandleMessage h)
  with assms show ?thesis by (auto intro: single_flight_frame)
next
  case (EndpointResolved p u ctor)
  with assms show ?thesis by (simp add: single_flight_resolved)
next
  case (EndpointFailed p e)
  have "single_flight (attempt_failed p e s)" if "(p, AwaitEndpoint) \<in> set (loops s)"
  proof -
    from that have "p \<in> fst ` set (loops s)" by force
    with assms show ?thesis by (rule single_flight_attempt_failed)
  qed
  with EndpointFailed assms show ?thesis by simp
next
  case (WsOpen v)
  with assms show ?thesis by (simp add: single_flight_emit_open)
next
  case (WsError v e)
  with assms show ?thesis by (simp add: single_flight_emit_error)
next
  case (WsClose v r)
  with assms show ?thesis by (simp add: single_flight_ws_on_close)
next
  case (WsMessage v d iv)
  with assms show ?thesis by (auto intro: single_flight_frame)
next
  case (WsPong v)
  with assms show ?thesis by (auto simp: emit_pong_def intro: single_flight_frame)
next
  case (HandlerSettled d r)
  with assms show ?thesis by (auto intro: single_flight_frame)
next
  case (TimerFired t)
  with assms show ?thesis by (simp add: single_flight_fire)
next
  case (Tick d)
  with assms show ?thesis by (auto intro: single_flight_frame)
qed

lemma single_flight_run: "single_flight s \<Longrightarrow> single_flight (run es s)"
  by (induction es arbitrary: s) (simp_all add: run_Nil run_Cons single_flight_step)

lemma single_flight_init: "single_flight init"
  by (simp add: single_flight_def init_def)

subsection \<open>Coalescing of \<^verbatim>\<open>reconnect()\<close>\<close>

lemma joins_in_flight:
  assumes "single_flight s" "loops s = [(p, k)]"
  shows "step (Reconnect c) s = s\<lparr>awaiting := awaiting s @ [(c, p)]\<rparr>"
    and "step (Connect c) s = s\<lparr>pendingConnect := True, awaiting := awaiting s @ [(c, p)]\<rparr>"
proof -
  from assms have f: "connectPromise s = Some p" "\<not> connected s"
    by (auto elim: single_flight_cases)
  with assms(2) show "step (Reconnect c) s = s\<lparr>awaiting := awaiting s @ [(c, p)]\<rparr>"
    by (simp add: reconnect_def await_promise_def)
  from f assms(2) show "step (Connect c) s = s\<lparr>pendingConnect := True, awaiting := awaiting s @ [(c, p)]\<rparr>"
    by (simp add: connect_def reconnect_def await_promise_def)
qed

lemma single_flight_length: "single_flight s \<Longrightarrow> length (loops s) \<le> 1"
  by (auto elim: single_flight_cases)

lemma loop_finish_returns:
  "(c, p) \<in> set (awaiting s) \<Longrightarrow>
     c \<in> set (returned (loop_finish p s)) \<and> (c, p) \<notin> set (awaiting (loop_finish p s))"
  by (force simp: loop_finish_def)

text \<open>
  C3. After any history of events from the new object, at most one loop of
  \<^verbatim>\<open>reconnect\<close> is suspended. A call of \<^verbatim>\<open>reconnect()\<close> or \<^verbatim>\<open>connect()\<close>
  made while a loop is in flight starts no loop and no attempt: the state is the same but
  for the caller now awaiting the promise of that loop (and \<^verbatim>\<open>pendingConnect\<close> set
  by \<^verbatim>\<open>connect()\<close>). A caller that awaits the promise of a loop returns when that
  loop ends.
\<close>

theorem reconnect_single_flight:
  "length (loops (run es init)) \<le> 1
   \<and> (loops (run es init) = [(p, k)] \<longrightarrow>
        step (Reconnect c) (run es init)
          = (run es init)\<lparr>awaiting := awaiting (run es init) @ [(c, p)]\<rparr>
        \<and> step (Connect c) (run es init)
          = (run es init)\<lparr>pendingConnect := True, awaiting := awaiting (run es init) @ [(c, p)]\<rparr>)
   \<and> ((c, p) \<in> set (awaiting s) \<longrightarrow>
        c \<in> set (returned (loop_finish p s)) \<and> (c, p) \<notin> set (awaiting (loop_finish p s)))"
proof -
  have i: "single_flight (run es init)"
    by (rule single_flight_run) (rule single_flight_init)
  show ?thesis
    using single_flight_length [OF i] joins_in_flight [OF i] loop_finish_returns [of c p s]
    by blast
qed

theorem reconnect_single_flight_witness:
  "loops (step (Reconnect 1) (run [Connect 0] init)) = [(0, AwaitEndpoint)]
   \<and> awaiting (step (Reconnect 1) (run [Connect 0] init)) = [(0, 0), (1, 0)]
   \<and> loops (step (Connect 2) (run [Connect 0] init)) = [(0, AwaitEndpoint)]
   \<and> awaiting (step (Connect 2) (run [Connect 0] init)) = [(0, 0), (2, 0)]
   \<and> returned (loop_finish 0 (step (Reconnect 1) (run [Connect 0] init))) = [0, 1]"
proof -
  have r: "run [Connect 0] init = init\<lparr>pendingConnect := True, connectPromise := Some 0,
      next_promise := 1, loops := [(0, AwaitEndpoint)], awaiting := [(0, 0)]\<rparr>"
    using connect_from_init by (simp add: run_Cons run_Nil)
  have l: "loops (run [Connect 0] init) = [(0, AwaitEndpoint)]"
    unfolding r by simp
  note t = reconnect_single_flight [of "[Connect 0]" 0 AwaitEndpoint]
  from t [of 1] l have 1: "step (Reconnect 1) (run [Connect 0] init)
      = (run [Connect 0] init)\<lparr>awaiting := awaiting (run [Connect 0] init) @ [(1, 0)]\<rparr>"
    by blast
  from t [of 2] l have 2: "step (Connect 2) (run [Connect 0] init)
      = (run [Connect 0] init)\<lparr>pendingConnect := True,
          awaiting := awaiting (run [Connect 0] init) @ [(2, 0)]\<rparr>"
    by blast
  show ?thesis
    unfolding 1 2 unfolding r by (simp add: init_def loop_finish_def)
qed


subsection \<open>Cancelled open attempts\<close>

lemma resolved_when_cancelled:
  assumes "(p, AwaitEndpoint) \<in> set (loops s)" "\<not> pendingConnect s"
  shows "attempts (step (EndpointResolved p u ctor) s) = attempts s @ [Some ConnectionCancelled]
    \<and> sockets (step (EndpointResolved p u ctor) s) = sockets s
    \<and> ws (step (EndpointResolved p u ctor) s) = ws s
    \<and> connected (step (EndpointResolved p u ctor) s) = connected s"
  using assms by (simp add: connect_priv_resolved_def)

lemma open_when_superseded:
  assumes "w < length (sockets s)" "once_open (sockets s ! w)" "ws s \<noteq> Some w"
  shows "close_calls (sockets (step (WsOpen w) s) ! w) = Suc (close_calls (sockets s ! w))
    \<and> ws (step (WsOpen w) s) = ws s \<and> connected (step (WsOpen w) s) = connected s
    \<and> (awaiting_open w s \<noteq> [] \<longrightarrow>
         attempts (step (WsOpen w) s) = attempts s @ [Some ConnectionCancelled])"
proof -
  define s1 where "s1 = ws_close w (upd_socket w (\<lambda>k. k\<lparr>once_open := False\<rparr>) s)"
  have e: "step (WsOpen w) s = reject_open w ConnectionCancelled s1"
    using assms by (simp add: emit_open_def ws_once_open_def s1_def)
  have c: "close_calls (sockets s1 ! w) = Suc (close_calls (sockets s ! w))"
    using assms(1) by (simp add: s1_def ws_close_def upd_socket_def)
  have a: "awaiting_open w s1 = awaiting_open w s"
    by (simp add: awaiting_open_def s1_def)
  have f: "ws s1 = ws s" "connected s1 = connected s" "attempts s1 = attempts s"
    by (simp_all add: s1_def)
  have "attempts (reject_open w ConnectionCancelled s1) = attempts s @ [Some ConnectionCancelled]"
    if "awaiting_open w s \<noteq> []"
    using that a f by (cases "awaiting_open w s") (simp_all add: reject_open_def)
  with c f show ?thesis unfolding e by simp
qed

lemma cancelled_resolving:
  "run [Connect 0, Disconnect] init = init\<lparr>connectPromise := Some 0, next_promise := 1,
     loops := [(0, AwaitEndpoint)], awaiting := [(0, 0)]\<rparr>"
  by (simp add: run_Cons run_Nil connect_from_init) (simp add: init_def api_defs)

lemma cancelled_opening:
  "run [Connect 0, EndpointResolved 0 ''u'' None, Disconnect] init =
     init\<lparr>connectPromise := Some 0,
       sockets := [\<lparr>url = ''u'', once_open = True, once_error = True, on_error = False,
                    once_pong = 0, close_calls = 1, pings = []\<rparr>],
       loops := [(0, AwaitOpen 0)], next_promise := 1, awaiting := [(0, 0)]\<rparr>"
proof -
  have "run [Connect 0, EndpointResolved 0 ''u'' None, Disconnect] init
      = step Disconnect (run [Connect 0, EndpointResolved 0 ''u'' None] init)"
    using run_snoc [of "[Connect 0, EndpointResolved 0 ''u'' None]" Disconnect init] by simp
  then show ?thesis
    unfolding opening_from_init by (simp add: init_def api_defs)
qed

text \<open>
  C5. When the endpoint arrives and \<^verbatim>\<open>pendingConnect\<close> is false, the attempt fails
  with the cancellation error and no socket is made: the sockets, \<^verbatim>\<open>this.ws\<close> and
  \<^verbatim>\<open>connected\<close> are as before. When the \<^verbatim>\<open>open\<close> event of a socket fires and that
  socket is not the current one, it is closed, \<^verbatim>\<open>this.ws\<close> and \<^verbatim>\<open>connected\<close> are
  as before, the attempt that awaited the open fails with the cancellation error, and
  after no later history of events is that socket the current one.
\<close>

theorem superseded_open_not_promoted:
  "((p, AwaitEndpoint) \<in> set (loops s) \<and> \<not> pendingConnect s \<longrightarrow>
      attempts (step (EndpointResolved p u ctor) s) = attempts s @ [Some ConnectionCancelled]
      \<and> sockets (step (EndpointResolved p u ctor) s) = sockets s
      \<and> ws (step (EndpointResolved p u ctor) s) = ws s
      \<and> connected (step (EndpointResolved p u ctor) s) = connected s)
   \<and> (w < length (sockets s) \<and> once_open (sockets s ! w) \<and> ws s \<noteq> Some w \<longrightarrow>
      close_calls (sockets (step (WsOpen w) s) ! w) = Suc (close_calls (sockets s ! w))
      \<and> ws (step (WsOpen w) s) = ws s \<and> connected (step (WsOpen w) s) = connected s
      \<and> (awaiting_open w s \<noteq> [] \<longrightarrow>
           attempts (step (WsOpen w) s) = attempts s @ [Some ConnectionCancelled])
      \<and> (\<forall>es. ws (run es (step (WsOpen w) s)) \<noteq> Some w))"
proof (intro conjI impI allI)
  assume "(p, AwaitEndpoint) \<in> set (loops s) \<and> \<not> pendingConnect s"
  then have h: "(p, AwaitEndpoint) \<in> set (loops s)" "\<not> pendingConnect s" by simp_all
  from resolved_when_cancelled [OF h]
  show "attempts (step (EndpointResolved p u ctor) s) = attempts s @ [Some ConnectionCancelled]"
    and "sockets (step (EndpointResolved p u ctor) s) = sockets s"
    and "ws (step (EndpointResolved p u ctor) s) = ws s"
    and "connected (step (EndpointResolved p u ctor) s) = connected s"
    by simp_all
next
  assume a: "w < length (sockets s) \<and> once_open (sockets s ! w) \<and> ws s \<noteq> Some w"
  then have h: "w < length (sockets s)" "once_open (sockets s ! w)" "ws s \<noteq> Some w" by simp_all
  note r = open_when_superseded [OF h]
  from r show "close_calls (sockets (step (WsOpen w) s) ! w) = Suc (close_calls (sockets s ! w))"
    by simp
  from r show "ws (step (WsOpen w) s) = ws s" by simp
  from r show "connected (step (WsOpen w) s) = connected s" by simp
  {
    assume "awaiting_open w s \<noteq> []"
    with r show "attempts (step (WsOpen w) s) = attempts s @ [Some ConnectionCancelled]" by simp
  }
  fix es
  from h have "superseded w s" by (simp add: superseded_def)
  then have "superseded w (run es (step (WsOpen w) s))"
    by (intro superseded_run superseded_step)
  then show "ws (run es (step (WsOpen w) s)) \<noteq> Some w" by (simp add: superseded_def)
qed

theorem superseded_open_not_promoted_witness:
  "attempts (step (EndpointResolved 0 ''u'' None) (run [Connect 0, Disconnect] init))
     = [Some ConnectionCancelled]
   \<and> sockets (step (EndpointResolved 0 ''u'' None) (run [Connect 0, Disconnect] init)) = []
   \<and> close_calls (sockets (step (WsOpen 0)
        (run [Connect 0, EndpointResolved 0 ''u'' None, Disconnect] init)) ! 0) = 2
   \<and> attempts (step (WsOpen 0) (run [Connect 0, EndpointResolved 0 ''u'' None, Disconnect] init))
     = [Some ConnectionCancelled]
   \<and> \<not> connected (step (WsOpen 0) (run [Connect 0, EndpointResolved 0 ''u'' None, Disconnect] init))
   \<and> ws (run [Connect 1, Tick 1000, TimerFired 0, EndpointResolved 0 ''v'' None]
        (step (WsOpen 0) (run [Connect 0, EndpointResolved 0 ''u'' None, Disconnect] init))) \<noteq> Some 0"
proof -
  let ?a = "run [Connect 0, Disconnect] init"
  let ?b = "run [Connect 0, EndpointResolved 0 ''u'' None, Disconnect] init"
  have ha: "(0, AwaitEndpoint) \<in> set (loops ?a) \<and> \<not> pendingConnect ?a"
    and ta: "attempts ?a = []" "sockets ?a = []"
    unfolding cancelled_resolving by (simp_all add: init_def)
  have hb: "0 < length (sockets ?b) \<and> once_open (sockets ?b ! 0) \<and> ws ?b \<noteq> Some 0"
    and tb: "attempts ?b = []" "close_calls (sockets ?b ! 0) = 1" "awaiting_open 0 ?b \<noteq> []"
      "\<not> connected ?b"
    unfolding cancelled_opening by (simp_all add: init_def awaiting_open_def)
  note a = superseded_open_not_promoted [of 0 ?a "''u''" None, THEN conjunct1, rule_format, OF ha]
  note b = superseded_open_not_promoted [of _ ?b _ _ 0, THEN conjunct2, rule_format, OF hb]
  have 1: "attempts (step (EndpointResolved 0 ''u'' None) ?a) = [Some ConnectionCancelled]"
    and 2: "sockets (step (EndpointResolved 0 ''u'' None) ?a) = []"
    using a unfolding ta by simp_all
  have 3: "close_calls (sockets (step (WsOpen 0) ?b) ! 0) = 2"
    and 4: "attempts (step (WsOpen 0) ?b) = [Some ConnectionCancelled]"
    and 5: "\<not> connected (step (WsOpen 0) ?b)"
    using b tb by simp_all
  have 6: "ws (run [Connect 1, Tick 1000, TimerFired 0, EndpointResolved 0 ''v'' None]
        (step (WsOpen 0) ?b)) \<noteq> Some 0"
    using b by blast
  from 1 2 3 4 5 6 show ?thesis by (intro conjI)
qed


subsection \<open>Events of a superseded socket\<close>

lemma reopened_from_init:
  "run [Connect 0, EndpointResolved 0 ''u'' None, WsOpen 0, Disconnect, HandleMessage 5,
        Connect 1, EndpointResolved 1 ''v'' None, WsOpen 1] init =
     init\<lparr>connected := True, handler := Some 5, keepAliveTimeout := Some 1,
       pendingConnect := True, ws := Some 1,
       sockets := [\<lparr>url = ''u'', once_open = False, once_error = True, on_error = True,
                    once_pong = 1, close_calls = 1, pings = [0]\<rparr>,
                   \<lparr>url = ''v'', once_open = False, once_error = True, on_error = True,
                    once_pong = 1, close_calls = 0, pings = [0]\<rparr>],
       timers := [\<lparr>due = 10000, kind = Deadline 0, active = False\<rparr>,
                  \<lparr>due = 10000, kind = Deadline 1, active = True\<rparr>],
       next_promise := 2, returned := [0, 1], attempts := [None, None]\<rparr>"
proof -
  have "run [Connect 0, EndpointResolved 0 ''u'' None, WsOpen 0, Disconnect, HandleMessage 5,
        Connect 1, EndpointResolved 1 ''v'' None, WsOpen 1] init
      = run [Disconnect, HandleMessage 5, Connect 1, EndpointResolved 1 ''v'' None, WsOpen 1]
          (run [Connect 0, EndpointResolved 0 ''u'' None, WsOpen 0] init)"
    using run_append [of "[Connect 0, EndpointResolved 0 ''u'' None, WsOpen 0]"
        "[Disconnect, HandleMessage 5, Connect 1, EndpointResolved 1 ''v'' None, WsOpen 1]" init]
    by simp
  then show ?thesis
    unfolding opened_from_init by (simp add: run_Cons run_Nil init_def api_defs Let_def)
qed

text \<open>
  C1 at a monitor that was connected on socket 0, disconnected, given a handler and
  connected again on socket 1. The late \<^verbatim>\<open>close\<close> event of socket 0 clears
  \<^verbatim>\<open>connected\<close>, the handler and \<^verbatim>\<open>this.ws\<close> and closes socket 1; a late
  message of socket 0 is handed to the handler, and its truthy result deletes the entry of
  that id from \<^verbatim>\<open>pending\<close>; a late \<^verbatim>\<open>error\<close> event of socket 0 calls the pending
  callback and empties \<^verbatim>\<open>pending\<close>.
\<close>

theorem stale_transport_events_take_effect:
  "connected (run [Connect 0, EndpointResolved 0 ''u'' None, WsOpen 0, Disconnect, HandleMessage 5,
        Connect 1, EndpointResolved 1 ''v'' None, WsOpen 1] init)
   \<and> ws (run [Connect 0, EndpointResolved 0 ''u'' None, WsOpen 0, Disconnect, HandleMessage 5,
        Connect 1, EndpointResolved 1 ''v'' None, WsOpen 1] init) = Some 1
   \<and> \<not> connected (step (WsClose 0 ''bye'')
        (run [Connect 0, EndpointResolved 0 ''u'' None, WsOpen 0, Disconnect, HandleMessage 5,
          Connect 1, EndpointResolved 1 ''v'' None, WsOpen 1] init))
   \<and> ws (step (WsClose 0 ''bye'')
        (run [Connect 0, EndpointResolved 0 ''u'' None, WsOpen 0, Disconnect, HandleMessage 5,
          Connect 1, EndpointResolved 1 ''v'' None, WsOpen 1] init)) = None
   \<and> handler (step (WsClose 0 ''bye'')
        (run [Connect 0, EndpointResolved 0 ''u'' None, WsOpen 0, Disconnect, HandleMessage 5,
          Connect 1, EndpointResolved 1 ''v'' None, WsOpen 1] init)) = None
   \<and> map close_calls (sockets (step (WsClose 0 ''bye'')
        (run [Connect 0, EndpointResolved 0 ''u'' None, WsOpen 0, Disconnect, HandleMessage 5,
          Connect 1, EndpointResolved 1 ''v'' None, WsOpen 1] init))) = [1, 1]
   \<and> handler_calls (step (WsMessage 0 (BinaryFrame [7, 0, 0, 0, 0, 0, 0, 0, 1]) Returns)
        (run [Connect 0, EndpointResolved 0 ''u'' None, WsOpen 0, Disconnect, HandleMessage 5,
          Connect 1, EndpointResolved 1 ''v'' None, WsOpen 1] init)) = [(5, Buffer [1])]
   \<and> pending (run [WsMessage 0 (BinaryFrame [7, 0, 0, 0, 0, 0, 0, 0, 1]) Returns,
                    HandlerSettled 0 (Fulfilled True)]
        ((run [Connect 0, EndpointResolved 0 ''u'' None, WsOpen 0, Disconnect, HandleMessage 5,
          Connect 1, EndpointResolved 1 ''v'' None, WsOpen 1] init)
            \<lparr>pending := [(KNum 7, Callback 1 None)]\<rparr>)) = []
   \<and> calls (step (WsError 0 (Thrown ''late''))
        ((run [Connect 0, EndpointResolved 0 ''u'' None, WsOpen 0, Disconnect, HandleMessage 5,
          Connect 1, EndpointResolved 1 ''v'' None, WsOpen 1] init)
            \<lparr>pending := [(KNum 7, Callback 1 None)]\<rparr>)) = [(Callback 1 None, Thrown ''late'')]
   \<and> pending (step (WsError 0 (Thrown ''late''))
        ((run [Connect 0, EndpointResolved 0 ''u'' None, WsOpen 0, Disconnect, HandleMessage 5,
          Connect 1, EndpointResolved 1 ''v'' None, WsOpen 1] init)
            \<lparr>pending := [(KNum 7, Callback 1 None)]\<rparr>)) = []"
  unfolding reopened_from_init
  by (simp add: init_def run_Cons run_Nil ws_on_close_def ws_on_message_def decode_binary
      handler_settled_def pending_delete_def emit_error_def ws_once_error_def ws_on_error_def
      disconnect_priv_def stopKeepAlive_def clearTimeout_def ws_close_def upd_socket_def
      reject_open_def awaiting_open_def Let_def)


subsection \<open>\<^verbatim>\<open>reconnect()\<close> on a monitor that does not want a connection\<close>

lemma poisoned_from_init:
  "run [Reconnect 0, Connect 1] init
     = init\<lparr>connectPromise := Some 0, pendingConnect := True, next_promise := 1,
         returned := [0, 1]\<rparr>"
  by (simp add: run_Cons run_Nil init_def api_defs Let_def)

lemma poisoned_after_open:
  "run [Connect 0, EndpointResolved 0 ''u'' None, WsOpen 0, Reconnect 1, Connect 2] init
     = init\<lparr>connectPromise := Some 1, pendingConnect := True,
         sockets := [\<lparr>url = ''u'', once_open = False, once_error = True, on_error = True,
                      once_pong = 1, close_calls = 1, pings = [0]\<rparr>],
         timers := [\<lparr>due = 10000, kind = Deadline 0, active = False\<rparr>],
         next_promise := 2, returned := [0, 1, 2], attempts := [None]\<rparr>"
proof -
  have "run [Connect 0, EndpointResolved 0 ''u'' None, WsOpen 0, Reconnect 1, Connect 2] init
      = run [Reconnect 1, Connect 2] (run [Connect 0, EndpointResolved 0 ''u'' None, WsOpen 0] init)"
    using run_append [of "[Connect 0, EndpointResolved 0 ''u'' None, WsOpen 0]"
        "[Reconnect 1, Connect 2]" init]
    by simp
  then show ?thesis
    unfolding opened_from_init by (simp add: run_Cons run_Nil init_def api_defs Let_def)
qed

text \<open>
  C4 at a call of \<^verbatim>\<open>reconnect()\<close> made while \<^verbatim>\<open>pendingConnect\<close> is false, on the
  new object or, through the \<^verbatim>\<open>disconnect()\<close> inside \<^verbatim>\<open>reconnect()\<close>, on a
  connected monitor. The loop ends before its promise is stored, so the promise stays in
  \<^verbatim>\<open>connectPromise\<close>; the next \<^verbatim>\<open>connect()\<close> is handed that settled promise and
  returns with \<^verbatim>\<open>pendingConnect\<close> true, not connected, no loop running and no
  attempt made.
\<close>

theorem connect_returns_unconnected_after_reconnect:
  "returned (run [Reconnect 0, Connect 1] init) = [0, 1]
   \<and> pendingConnect (run [Reconnect 0, Connect 1] init)
   \<and> \<not> connected (run [Reconnect 0, Connect 1] init)
   \<and> loops (run [Reconnect 0, Connect 1] init) = []
   \<and> attempts (run [Reconnect 0, Connect 1] init) = []
   \<and> sockets (run [Reconnect 0, Connect 1] init) = []
   \<and> connectPromise (run [Reconnect 0, Connect 1] init) = Some 0
   \<and> connected (run [Connect 0, EndpointResolved 0 ''u'' None, WsOpen 0] init)
   \<and> returned (run [Connect 0, EndpointResolved 0 ''u'' None, WsOpen 0, Reconnect 1, Connect 2] init)
       = [0, 1, 2]
   \<and> pendingConnect (run [Connect 0, EndpointResolved 0 ''u'' None, WsOpen 0, Reconnect 1, Connect 2] init)
   \<and> \<not> connected (run [Connect 0, EndpointResolved 0 ''u'' None, WsOpen 0, Reconnect 1, Connect 2] init)
   \<and> loops (run [Connect 0, EndpointResolved 0 ''u'' None, WsOpen 0, Reconnect 1, Connect 2] init) = []
   \<and> attempts (run [Connect 0, EndpointResolved 0 ''u'' None, WsOpen 0, Reconnect 1, Connect 2] init)
       = [None]
   \<and> length (sockets (run [Connect 0, EndpointResolved 0 ''u'' None, WsOpen 0, Reconnect 1, Connect 2] init))
       = 1"
  unfolding poisoned_from_init poisoned_after_open opened_from_init
  by (simp add: init_def)


subsection \<open>The retry loop and the settling of a dispatch\<close>

lemma retry_rounds:
  "run (concat (map (\<lambda>i. [EndpointFailed 0 e, Tick 1000, TimerFired i]) [0..<n])) (step (Connect 0) init)
     = init\<lparr>pendingConnect := True, connectPromise := Some 0, next_promise := 1,
         loops := [(0, AwaitEndpoint)], awaiting := [(0, 0)],
         timers := map (\<lambda>i. \<lparr>due = 1000 * Suc i, kind = Backoff 0, active = False\<rparr>) [0..<n],
         now := 1000 * n, attempts := replicate n (Some e)\<rparr>"
proof (induction n)
  case 0
  show ?case unfolding connect_from_init by (simp add: run_Nil init_def)
next
  case (Suc n)
  have "run (concat (map (\<lambda>i. [EndpointFailed 0 e, Tick 1000, TimerFired i]) [0..<Suc n])) (step (Connect 0) init)
      = run [EndpointFailed 0 e, Tick 1000, TimerFired n]
          (run (concat (map (\<lambda>i. [EndpointFailed 0 e, Tick 1000, TimerFired i]) [0..<n])) (step (Connect 0) init))"
    by (simp add: run_append)
  also have "\<dots> = init\<lparr>pendingConnect := True, connectPromise := Some 0, next_promise := 1,
         loops := [(0, AwaitEndpoint)], awaiting := [(0, 0)],
         timers := map (\<lambda>i. \<lparr>due = 1000 * Suc i, kind = Backoff 0, active = False\<rparr>) [0..<Suc n],
         now := 1000 * Suc n, attempts := replicate (Suc n) (Some e)\<rparr>"
    unfolding Suc.IH
    by (simp add: run_Cons run_Nil init_def attempt_failed_def setTimeout_def put_pc_def fire_def
        clearTimeout_def loop_head_def connect_priv_begin_def Let_def nth_append
        replicate_append_same list_update_append)
  finally show ?case .
qed

text \<open>
  The loop has no bound on its attempts. For every \<open>n\<close>, a \<^verbatim>\<open>connect()\<close> whose
  endpoint resolution fails \<open>n\<close> times, each failure followed by the backoff of 1000 ms,
  and then succeeds, ends connected: \<open>n\<close> failed attempts and one successful one were
  made, \<open>1000 * n\<close> ms have passed, and the call has returned. If instead
  \<^verbatim>\<open>disconnect()\<close> is called during the backoff after one more failure, the loop ends
  at its next test without a further attempt and without an exception, and the call
  returns unconnected.
\<close>

theorem retry_until_success:
  "connected (run (Connect 0 # concat (map (\<lambda>i. [EndpointFailed 0 e, Tick 1000, TimerFired i]) [0..<n])
       @ [EndpointResolved 0 u None, WsOpen 0]) init)
   \<and> attempts (run (Connect 0 # concat (map (\<lambda>i. [EndpointFailed 0 e, Tick 1000, TimerFired i]) [0..<n])
       @ [EndpointResolved 0 u None, WsOpen 0]) init) = replicate n (Some e) @ [None]
   \<and> returned (run (Connect 0 # concat (map (\<lambda>i. [EndpointFailed 0 e, Tick 1000, TimerFired i]) [0..<n])
       @ [EndpointResolved 0 u None, WsOpen 0]) init) = [0]
   \<and> now (run (Connect 0 # concat (map (\<lambda>i. [EndpointFailed 0 e, Tick 1000, TimerFired i]) [0..<n])
       @ [EndpointResolved 0 u None, WsOpen 0]) init) = 1000 * n
   \<and> loops (run (Connect 0 # concat (map (\<lambda>i. [EndpointFailed 0 e, Tick 1000, TimerFired i]) [0..<n])
       @ [EndpointFailed 0 e, Disconnect, Tick 1000, TimerFired n]) init) = []
   \<and> returned (run (Connect 0 # concat (map (\<lambda>i. [EndpointFailed 0 e, Tick 1000, TimerFired i]) [0..<n])
       @ [EndpointFailed 0 e, Disconnect, Tick 1000, TimerFired n]) init) = [0]
   \<and> \<not> connected (run (Connect 0 # concat (map (\<lambda>i. [EndpointFailed 0 e, Tick 1000, TimerFired i]) [0..<n])
       @ [EndpointFailed 0 e, Disconnect, Tick 1000, TimerFired n]) init)
   \<and> uncaught (run (Connect 0 # concat (map (\<lambda>i. [EndpointFailed 0 e, Tick 1000, TimerFired i]) [0..<n])
       @ [EndpointFailed 0 e, Disconnect, Tick 1000, TimerFired n]) init) = []"
proof -
  let ?rounds = "concat (map (\<lambda>i. [EndpointFailed 0 e, Tick 1000, TimerFired i]) [0..<n])"
  have r: "run (Connect 0 # ?rounds @ es) init = run es (run ?rounds (step (Connect 0) init))" for es
    by (simp add: run_Cons run_append)
  have a: "run [EndpointResolved 0 u None, WsOpen 0] (run ?rounds (step (Connect 0) init))
      = init\<lparr>connected := True, keepAliveTimeout := Some n, pendingConnect := True, ws := Some 0,
          sockets := [\<lparr>url = u, once_open = False, once_error = True, on_error = True,
                       once_pong = 1, close_calls = 0, pings = [1000 * n]\<rparr>],
          timers := map (\<lambda>i. \<lparr>due = 1000 * Suc i, kind = Backoff 0, active = False\<rparr>) [0..<n]
                      @ [\<lparr>due = 1000 * n + 10000, kind = Deadline 0, active = True\<rparr>],
          now := 1000 * n, next_promise := 1, returned := [0],
          attempts := replicate n (Some e) @ [None]\<rparr>"
    unfolding retry_rounds
    by (simp add: run_Cons run_Nil init_def api_defs Let_def)
  have b: "run [EndpointFailed 0 e, Disconnect, Tick 1000, TimerFired n] (run ?rounds (step (Connect 0) init))
      = init\<lparr>timers := map (\<lambda>i. \<lparr>due = 1000 * Suc i, kind = Backoff 0, active = False\<rparr>) [0..<Suc n],
          now := 1000 * Suc n, next_promise := 1, returned := [0],
          attempts := replicate (Suc n) (Some e)\<rparr>"
    unfolding retry_rounds
    by (simp add: run_Cons run_Nil init_def api_defs fire_def Let_def nth_append
        replicate_append_same list_update_append)
  show ?thesis
    unfolding r a b by (simp add: init_def)
qed

lemma pending_delete_removes:
  "key_of i = Some k \<Longrightarrow> k \<notin> fst ` set (pending_delete i ps)"
  by (auto simp: pending_delete_def)

text \<open>
  The result of the handler. When the promise of a dispatch is fulfilled with a truthy
  value, the id of the message is deleted from \<^verbatim>\<open>pending\<close>, and no other key is
  touched; a falsy value leaves \<^verbatim>\<open>pending\<close> as it is; a promise settles once. A handler
  that throws when called is recorded as called, the error is printed and nothing else
  changes; a handler that returns is recorded with the id of the message as a new dispatch.
  A frame that cannot be decoded is printed as an error and the handler is not called.
\<close>

theorem handler_result_settles:
  "(d < length (dispatched s) \<and> dispatched s ! d = (i, False) \<longrightarrow>
      pending (step (HandlerSettled d (Fulfilled True)) s) = pending_delete i (pending s)
      \<and> (\<forall>k. key_of i = Some k \<longrightarrow>
            k \<notin> fst ` set (pending (step (HandlerSettled d (Fulfilled True)) s))
            \<and> filter (\<lambda>(k', c). k' \<noteq> k) (pending (step (HandlerSettled d (Fulfilled True)) s))
                = filter (\<lambda>(k', c). k' \<noteq> k) (pending s))
      \<and> pending (step (HandlerSettled d (Fulfilled False)) s) = pending s
      \<and> step (HandlerSettled d r) (step (HandlerSettled d r') s) = step (HandlerSettled d r') s)
   \<and> (w < length (sockets s) \<and> handler s = Some h \<and> decode f = Inr (i, m) \<longrightarrow>
      step (WsMessage w f (Throws e)) s
        = s\<lparr>handler_calls := handler_calls s @ [(h, m)],
            console := console s @ [AgentHandlerError e]\<rparr>
      \<and> step (WsMessage w f Returns) s
        = s\<lparr>handler_calls := handler_calls s @ [(h, m)],
            dispatched := dispatched s @ [(i, False)]\<rparr>)
   \<and> (w < length (sockets s) \<and> decode f = Inl e \<longrightarrow>
      step (WsMessage w f iv) s = s\<lparr>console := console s @ [AgentHandlerError e]\<rparr>)"
proof (intro conjI impI allI)
  assume a: "d < length (dispatched s) \<and> dispatched s ! d = (i, False)"
  then show 1: "pending (step (HandlerSettled d (Fulfilled True)) s) = pending_delete i (pending s)"
    by (simp add: handler_settled_def Let_def)
  from a show "pending (step (HandlerSettled d (Fulfilled False)) s) = pending s"
    by (simp add: handler_settled_def Let_def)
  from a show "step (HandlerSettled d r) (step (HandlerSettled d r') s) = step (HandlerSettled d r') s"
    by (cases r') (simp_all add: handler_settled_def Let_def)
  fix k
  assume k: "key_of i = Some k"
  then show "k \<notin> fst ` set (pending (step (HandlerSettled d (Fulfilled True)) s))"
    unfolding 1 by (rule pending_delete_removes)
  from k show "filter (\<lambda>(k', c). k' \<noteq> k) (pending (step (HandlerSettled d (Fulfilled True)) s))
                = filter (\<lambda>(k', c). k' \<noteq> k) (pending s)"
    unfolding 1 by (simp add: pending_delete_def)
next
  assume "w < length (sockets s) \<and> handler s = Some h \<and> decode f = Inr (i, m)"
  then show "step (WsMessage w f (Throws e)) s
        = s\<lparr>handler_calls := handler_calls s @ [(h, m)],
            console := console s @ [AgentHandlerError e]\<rparr>"
    and "step (WsMessage w f Returns) s
        = s\<lparr>handler_calls := handler_calls s @ [(h, m)],
            dispatched := dispatched s @ [(i, False)]\<rparr>"
    by (simp_all add: ws_on_message_def)
next
  assume "w < length (sockets s) \<and> decode f = Inl e"
  then show "step (WsMessage w f iv) s = s\<lparr>console := console s @ [AgentHandlerError e]\<rparr>"
    by (simp add: ws_on_message_def)
qed

theorem handler_result_settles_witness:
  "pending (step (HandlerSettled 0 (Fulfilled True))
      (init\<lparr>pending := [(KNum 42, Callback 1 None), (KNum 43, Callback 2 None)],
            dispatched := [(Json (JNum 42), False)]\<rparr>)) = [(KNum 43, Callback 2 None)]
   \<and> pending (step (HandlerSettled 0 (Fulfilled False))
      (init\<lparr>pending := [(KNum 42, Callback 1 None), (KNum 43, Callback 2 None)],
            dispatched := [(Json (JNum 42), False)]\<rparr>))
     = [(KNum 42, Callback 1 None), (KNum 43, Callback 2 None)]
   \<and> console (step (WsMessage 0 (TextFrame (Some (JObj [(''id'', JNum 42)]))) (Throws (Thrown ''boom'')))
      (init\<lparr>handler := Some 5, sockets := [new_socket ''u'']\<rparr>))
     = [AgentHandlerError (Thrown ''boom'')]
   \<and> console (step (WsMessage 0 (TextFrame (Some JNull)) Returns)
      (init\<lparr>handler := Some 5, sockets := [new_socket ''u'']\<rparr>))
     = [AgentHandlerError TypeError]"
proof -
  let ?s = "init\<lparr>pending := [(KNum 42, Callback 1 None), (KNum 43, Callback 2 None)],
            dispatched := [(Json (JNum 42), False)]\<rparr>"
  let ?m = "init\<lparr>handler := Some 5, sockets := [new_socket ''u'']\<rparr>"
  have hs: "0 < length (dispatched ?s) \<and> dispatched ?s ! 0 = (Json (JNum 42), False)"
    and ps: "pending ?s = [(KNum 42, Callback 1 None), (KNum 43, Callback 2 None)]"
    by simp_all
  have hm: "0 < length (sockets ?m) \<and> handler ?m = Some 5
      \<and> decode (TextFrame (Some (JObj [(''id'', JNum 42)]))) = Inr (Json (JNum 42), Json (JObj [(''id'', JNum 42)]))"
    and hn: "0 < length (sockets ?m) \<and> decode (TextFrame (Some JNull)) = Inl TypeError"
    and cm: "console ?m = []"
    by (simp_all add: decode_def init_def)
  note a = handler_result_settles [of 0 ?s "Json (JNum 42)", THEN conjunct1, rule_format, OF hs]
  have 1: "pending (step (HandlerSettled 0 (Fulfilled True)) ?s) = [(KNum 43, Callback 2 None)]"
    using a unfolding ps by (simp add: pending_delete_def)
  have 2: "pending (step (HandlerSettled 0 (Fulfilled False)) ?s)
     = [(KNum 42, Callback 1 None), (KNum 43, Callback 2 None)]"
    using a unfolding ps by simp
  have 3: "console (step (WsMessage 0 (TextFrame (Some (JObj [(''id'', JNum 42)]))) (Throws (Thrown ''boom''))) ?m)
     = [AgentHandlerError (Thrown ''boom'')]"
    using handler_result_settles [of _ ?m "Json (JNum 42)" _ _ 0 5
        "TextFrame (Some (JObj [(''id'', JNum 42)]))" "Json (JObj [(''id'', JNum 42)])" "Thrown ''boom''",
        THEN conjunct2, THEN conjunct1, rule_format, OF hm]
    by (simp add: cm)
  have 4: "console (step (WsMessage 0 (TextFrame (Some JNull)) Returns) ?m) = [AgentHandlerError TypeError]"
    using handler_result_settles [of _ ?m _ _ _ 0 _ "TextFrame (Some JNull)" _ TypeError Returns,
        THEN conjunct2, THEN conjunct2, rule_format, OF hn]
    by (simp add: cm)
  from 1 2 3 4 show ?thesis by (intro conjI)
qed


end
